theory Spec2Isabelle
  imports Main
begin

section \<open>HTTP Digest authentication: \<^verbatim>\<open>python_digest/__init__.py\<close>\<close>

text \<open>
  A shallow embedding of the module \<^verbatim>\<open>python_digest\<close>. Python text and byte strings are
  both \<^typ>\<open>string\<close> here (a list of 8-bit characters, the UTF-8 encoding of the text), so
  \<^verbatim>\<open>.encode('utf-8')\<close> is the identity. An argument that may be \<^verbatim>\<open>None\<close> is an
  \<^typ>\<open>'a option\<close>, a raised exception is the left summand of \<^typ>\<open>'e + 'a\<close>.
\<close>

subsection \<open>Python built-ins used by the module\<close>

datatype error = Exception string | ValueError | KeyError | TypeError

text \<open>Truth value of an optional string: \<^verbatim>\<open>None\<close> and \<^verbatim>\<open>''\<close> are false.\<close>

definition truthy :: "string option \<Rightarrow> bool" where
  "truthy s = (case s of None \<Rightarrow> False | Some v \<Rightarrow> v \<noteq> [])"

text \<open>\<^verbatim>\<open>str.lower\<close>: the letters A to Z go to a to z, every other character stays.\<close>

definition ascii_upper :: string where
  "ascii_upper = ''ABCDEFGHIJKLMNOPQRSTUVWXYZ''"

definition ascii_lower :: string where
  "ascii_lower = ''abcdefghijklmnopqrstuvwxyz''"

definition lower_char :: "char \<Rightarrow> char" where
  "lower_char c = (case map_of (zip ascii_upper ascii_lower) c of Some l \<Rightarrow> l | None \<Rightarrow> c)"

definition lower :: "string \<Rightarrow> string" where
  "lower s = map lower_char s"

text \<open>\<^verbatim>\<open>s.split(sep, maxsplit)\<close>: cut at the first \<open>maxsplit\<close> separators, left to right.\<close>

primrec str_split :: "char \<Rightarrow> nat \<Rightarrow> string \<Rightarrow> string list" where
  "str_split sep 0 s = [s]"
| "str_split sep (Suc n) s =
     (if sep \<in> set s
      then takeWhile (\<lambda>c. c \<noteq> sep) s # str_split sep n (tl (dropWhile (\<lambda>c. c \<noteq> sep) s))
      else [s])"

text \<open>
  \<^verbatim>\<open>'%x' % n\<close> for a natural number, and \<^verbatim>\<open>'%08x' % n\<close> for an integer: lowercase
  hexadecimal, padded with zeros to a width of 8 that counts the sign.
\<close>

definition hex_digit :: "nat \<Rightarrow> char" where
  "hex_digit d = ''0123456789abcdef'' ! d"

fun hex_of_nat :: "nat \<Rightarrow> string" where
  "hex_of_nat n = (if n < 16 then [hex_digit n]
                   else hex_of_nat (n div 16) @ [hex_digit (n mod 16)])"

definition zero_pad :: "nat \<Rightarrow> string \<Rightarrow> string" where
  "zero_pad w s = replicate (w - length s) (CHR ''0'') @ s"

definition format_08x :: "int \<Rightarrow> string" where
  "format_08x n = (if n < 0 then CHR ''-'' # zero_pad 7 (hex_of_nat (nat (- n)))
                   else zero_pad 8 (hex_of_nat (nat n)))"

text \<open>
  \<^verbatim>\<open>random.choice('0123456789ABCDEF')\<close>, called \<open>n\<close> times and joined. The random source is
  a parameter: \<open>rnd i\<close> is the number drawn at the \<open>i\<close>-th call, reduced to an index.
\<close>

definition random_hex :: "(nat \<Rightarrow> nat) \<Rightarrow> nat \<Rightarrow> string" where
  "random_hex rnd n = map (\<lambda>x. ''0123456789ABCDEF'' ! (rnd x mod 16)) [0..<n]"

text \<open>
  \<^verbatim>\<open>float(s)\<close> for a string of ASCII characters, as Python 3 reads it. An underscore may
  stand between two digits. White space around the text is dropped. Then comes an optional
  sign and either \<^verbatim>\<open>inf\<close>, \<^verbatim>\<open>infinity\<close> or \<^verbatim>\<open>nan\<close> in any case, or a decimal numeral:
  digits with an optional point and an optional exponent. The value of a numeral is kept as
  its sign, its digits and its power of ten, the number read before it is rounded to a
  binary float. \<^verbatim>\<open>ValueError\<close> is the one exception that \<^verbatim>\<open>float\<close> raises on a string.
\<close>

datatype pyfloat = Nan | Infinite bool | Decimal bool nat int

definition is_space :: "char \<Rightarrow> bool" where
  "is_space c = (c \<in> set [CHR 0x09, CHR 0x0A, CHR 0x0B, CHR 0x0C, CHR 0x0D, CHR '' ''])"

definition strip :: "string \<Rightarrow> string" where
  "strip s = rev (dropWhile is_space (rev (dropWhile is_space s)))"

definition is_digit :: "char \<Rightarrow> bool" where
  "is_digit c = (c \<in> set ''0123456789'')"

fun underscores_ok :: "char \<Rightarrow> string \<Rightarrow> bool" where
  "underscores_ok prev [] = (prev \<noteq> CHR ''_'')"
| "underscores_ok prev (c # cs) =
     ((if c = CHR ''_'' then is_digit prev else prev \<noteq> CHR ''_'' \<or> is_digit c)
      \<and> underscores_ok c cs)"

definition decimal_value :: "string \<Rightarrow> nat" where
  "decimal_value s = foldl (\<lambda>n c. 10 * n + (of_char c - 48)) 0 s"

definition split_sign :: "string \<Rightarrow> bool \<times> string" where
  "split_sign s =
     (case s of
        [] \<Rightarrow> (False, [])
      | c # cs \<Rightarrow> if c = CHR ''-'' then (True, cs)
                  else if c = CHR ''+'' then (False, cs)
                  else (False, s))"

definition float_number :: "string \<Rightarrow> (nat \<times> int) option" where
  "float_number s =
     (let whole = takeWhile is_digit s;
          r = dropWhile is_digit s;
          point = (r \<noteq> [] \<and> hd r = CHR ''.'');
          fraction = (if point then takeWhile is_digit (tl r) else []);
          rest = (if point then dropWhile is_digit (tl r) else r);
          digits = decimal_value (whole @ fraction)
      in if whole = [] \<and> fraction = [] then None
         else if rest = [] then Some (digits, - int (length fraction))
         else if hd rest = CHR ''e'' \<or> hd rest = CHR ''E''
           then (case split_sign (tl rest) of (negative, ds) \<Rightarrow>
                   if ds \<noteq> [] \<and> list_all is_digit ds
                   then Some (digits,
                              (if negative then - int (decimal_value ds) else int (decimal_value ds))
                              - int (length fraction))
                   else None)
         else None)"

definition python_float :: "string \<Rightarrow> error + pyfloat" where
  "python_float x =
     (if \<not> underscores_ok (CHR 0x00) x then Inl ValueError
      else
        case split_sign (strip (filter (\<lambda>c. c \<noteq> CHR ''_'') x)) of (negative, body) \<Rightarrow>
          if lower body = ''inf'' \<or> lower body = ''infinity'' then Inr (Infinite negative)
          else if lower body = ''nan'' then Inr Nan
          else (case float_number body of
                  None \<Rightarrow> Inl ValueError
                | Some (digits, exponent) \<Rightarrow> Inr (Decimal negative digits exponent)))"

subsection \<open>The hash provider\<close>

text \<open>
  \<^verbatim>\<open>hashlib\<close> is outside the repository, so the hash primitives are parameters: each maps
  the data to the raw digest bytes. \<^verbatim>\<open>sha512_256\<close> is \<open>None\<close> on a host whose provider
  lacks it; there \<^verbatim>\<open>hashlib.new('sha512_256')\<close> raises \<^verbatim>\<open>ValueError\<close>.
  \<^verbatim>\<open>hexdigest()\<close> renders every digest byte as two lowercase hexadecimal digits.
\<close>

record hashlib =
  md5 :: "string \<Rightarrow> string"
  sha256 :: "string \<Rightarrow> string"
  sha512 :: "string \<Rightarrow> string"
  sha512_256 :: "(string \<Rightarrow> string) option"

definition hexdigest :: "string \<Rightarrow> string" where
  "hexdigest digest =
     concat (map (\<lambda>b. [hex_digit (of_char b div 16), hex_digit (of_char b mod 16)]) digest)"

definition AVAILABLE_HASH_FUNCS :: "hashlib \<Rightarrow> string list" where
  "AVAILABLE_HASH_FUNCS H =
     [''MD5'', ''SHA-256'', ''SHA-512''] @
     (if sha512_256 H \<noteq> None then [''SHA-512-256''] else [])"

definition get_hash_func :: "hashlib \<Rightarrow> string \<Rightarrow> string \<Rightarrow> error + string" where
  "get_hash_func H algorithm =
     (if algorithm = ''SHA-256'' then (\<lambda>data. Inr (sha256 H data))
      else if algorithm = ''SHA-512-256''
        then (\<lambda>data. case sha512_256 H of None \<Rightarrow> Inl ValueError | Some h \<Rightarrow> Inr (h data))
      else if algorithm = ''SHA-512'' then (\<lambda>data. Inr (sha512 H data))
      else (\<lambda>data. Inr (md5 H data)))"

subsection \<open>Nonces\<close>

text \<open>
  The \<open>timestamp\<close> argument stands for its rendering by \<^verbatim>\<open>'%s'\<close>, which is all the code
  uses of it.
\<close>

definition calculate_nonce ::
  "hashlib \<Rightarrow> (nat \<Rightarrow> nat) \<Rightarrow> string \<Rightarrow> string \<Rightarrow> string option \<Rightarrow> string" where
  "calculate_nonce H rnd timestamp secret salt =
     (let salt = (case salt of
                    None \<Rightarrow> random_hex rnd 4
                  | Some s \<Rightarrow> if s = [] then random_hex rnd 4 else s)
      in timestamp @ '':'' @ salt @ '':'' @
         hexdigest (md5 H (timestamp @ '':'' @ salt @ '':'' @ secret)))"

definition validate_nonce :: "hashlib \<Rightarrow> (nat \<Rightarrow> nat) \<Rightarrow> string \<Rightarrow> string \<Rightarrow> bool" where
  "validate_nonce H rnd nonce secret =
     (let nonce_components = str_split (CHR '':'') 2 nonce in
      if \<not> length nonce_components = 3 then False
      else
        let timestamp = nonce_components ! 0;
            salt = nonce_components ! 1;
            calculated_nonce = calculate_nonce H rnd timestamp secret (Some salt)
        in if \<not> nonce = calculated_nonce then False else True)"

text \<open>
  \<^verbatim>\<open>float\<close> is a parameter of \<^verbatim>\<open>get_nonce_timestamp\<close>: the function catches its
  \<^verbatim>\<open>ValueError\<close> and lets any other exception pass.
\<close>

definition get_nonce_timestamp :: "(string \<Rightarrow> error + 'f) \<Rightarrow> string \<Rightarrow> error + 'f option" where
  "get_nonce_timestamp float nonce =
     (let components = str_split (CHR '':'') 2 nonce in
      if \<not> length components = 3 then Inr None
      else
        case float (components ! 0) of
          Inr x \<Rightarrow> Inr (Some x)
        | Inl e \<Rightarrow> if e = ValueError then Inr None else Inl e)"

subsection \<open>Recognising the scheme\<close>

definition is_digest_credential :: "string \<Rightarrow> bool" where
  "is_digest_credential authorization_header =
     (lower (take 7 authorization_header) = ''digest '')"

definition is_digest_challenge :: "string \<Rightarrow> bool" where
  "is_digest_challenge authentication_header =
     (lower (take 7 authentication_header) = ''digest '')"

text \<open>
  Case-insensitive comparison as the specification words it: two characters agree when
  they are equal or are the two cases of one letter.
\<close>

definition same_letter :: "char \<Rightarrow> char \<Rightarrow> bool" where
  "same_letter a b =
     (a = b \<or> (a, b) \<in> set (zip ascii_upper ascii_lower) \<or> (b, a) \<in> set (zip ascii_upper ascii_lower))"

definition equal_ignoring_case :: "string \<Rightarrow> string \<Rightarrow> bool" where
  "equal_ignoring_case xs ys = list_all2 same_letter xs ys"

subsection \<open>Digests\<close>

definition calculate_partial_digest ::
  "hashlib \<Rightarrow> string \<Rightarrow> string \<Rightarrow> string \<Rightarrow> string \<Rightarrow> error + string" where
  "calculate_partial_digest H username realm password algorithm =
     (let hash_func = get_hash_func H algorithm in
      case hash_func (username @ '':'' @ realm @ '':'' @ password) of
        Inl e \<Rightarrow> Inl e
      | Inr d \<Rightarrow> Inr (hexdigest d))"

text \<open>
  The named tuples. A field carries the initial of its tuple (\<open>r_uri\<close> is
  \<^verbatim>\<open>DigestResponse.uri\<close>, \<open>c_realm\<close> is \<^verbatim>\<open>DigestChallenge.realm\<close>), so that the
  functions below can keep the source's parameter names \<open>uri\<close>, \<open>nonce\<close>, \<open>realm\<close>.
\<close>

record DigestResponse =
  r_username :: string
  r_realm :: string
  r_nonce :: string
  r_uri :: string
  r_response :: string
  r_algorithm :: string
  r_opaque :: string
  r_qop :: string
  r_nc :: int
  r_cnonce :: string

record DigestChallenge =
  c_realm :: string
  c_nonce :: string
  c_stale :: bool
  c_algorithm :: string
  c_opaque :: string
  c_qop :: string

text \<open>Truth value of an optional integer: \<^verbatim>\<open>None\<close> and \<^verbatim>\<open>0\<close> are false.\<close>

definition truthy_int :: "int option \<Rightarrow> bool" where
  "truthy_int n = (case n of None \<Rightarrow> False | Some v \<Rightarrow> v \<noteq> 0)"

text \<open>\<^verbatim>\<open>algorithm or 'MD5'\<close>.\<close>

definition or_MD5 :: "string option \<Rightarrow> string" where
  "or_MD5 algorithm = (case algorithm of None \<Rightarrow> ''MD5'' | Some a \<Rightarrow> if a = [] then ''MD5'' else a)"

text \<open>
  Lines 112 to 118 of \<^verbatim>\<open>calculate_request_digest\<close>: the computation once the five values
  are settled.
\<close>

definition request_digest_of ::
  "hashlib \<Rightarrow> string \<Rightarrow> string \<Rightarrow> string \<Rightarrow> string \<Rightarrow> int \<Rightarrow> string \<Rightarrow> string option
     \<Rightarrow> error + string" where
  "request_digest_of H method partial_digest uri nonce nonce_count client_nonce algorithm =
     (let algorithm = or_MD5 algorithm;
          hash_func = get_hash_func H algorithm
      in case hash_func (method @ '':'' @ uri) of
           Inl e \<Rightarrow> Inl e
         | Inr d2 \<Rightarrow>
             let ha2 = hexdigest d2;
                 data = nonce @ '':'' @ format_08x nonce_count @ '':'' @ client_nonce @ '':'' @
                        ''auth'' @ '':'' @ ha2
             in case hash_func (partial_digest @ '':'' @ data) of
                  Inl e \<Rightarrow> Inl e
                | Inr dk \<Rightarrow> Inr (hexdigest dk))"

definition calculate_request_digest ::
  "hashlib \<Rightarrow> string \<Rightarrow> string \<Rightarrow> DigestResponse option \<Rightarrow> string option \<Rightarrow> string option
     \<Rightarrow> int option \<Rightarrow> string option \<Rightarrow> string option \<Rightarrow> error + string" where
  "calculate_request_digest H method partial_digest digest_response
       uri nonce nonce_count client_nonce algorithm =
     (case digest_response of
        Some d \<Rightarrow>
          if truthy uri \<or> truthy nonce \<or> truthy_int nonce_count \<or> truthy client_nonce
             \<or> truthy algorithm
          then Inl (Exception
            ''Both digest_response and one or more individual parameters were sent.'')
          else request_digest_of H method partial_digest
                 (r_uri d) (r_nonce d) (r_nc d) (r_cnonce d) (Some (r_algorithm d))
      | None \<Rightarrow>
          if \<not> (truthy uri \<and> truthy nonce \<and> nonce_count \<noteq> None \<and> truthy client_nonce)
          then Inl (Exception
            ''Neither digest_response nor all individual parameters were sent.'')
          else (case (uri, nonce, nonce_count, client_nonce) of
                  (Some u, Some n, Some k, Some cn) \<Rightarrow>
                    request_digest_of H method partial_digest u n k cn algorithm
                | _ \<Rightarrow> Inl TypeError))"

subsection \<open>Parsing headers\<close>

text \<open>
  \<^verbatim>\<open>parse_parts\<close> and \<^verbatim>\<open>format_parts\<close> live in \<^verbatim>\<open>python_digest/utils.py\<close>, which is not
  among the source files, so the functions that call them take them as parameters:
  \<open>parse_parts s defaults\<close> returns the mapping of the header's parameters over the
  defaults, or \<open>None\<close> when the header does not parse; \<open>format_parts\<close> takes the keyword
  arguments in the order of the call.
\<close>

type_synonym parts = "string \<rightharpoonup> string"

definition REQUIRED_DIGEST_RESPONSE_PARTS :: "string list" where
  "REQUIRED_DIGEST_RESPONSE_PARTS =
     [''username'', ''realm'', ''nonce'', ''uri'', ''response'', ''algorithm'', ''opaque'',
      ''qop'', ''nc'', ''cnonce'']"

definition REQUIRED_DIGEST_CHALLENGE_PARTS :: "string list" where
  "REQUIRED_DIGEST_CHALLENGE_PARTS =
     [''realm'', ''nonce'', ''stale'', ''algorithm'', ''opaque'', ''qop'']"

definition check_required_parts :: "parts option \<Rightarrow> string list \<Rightarrow> bool" where
  "check_required_parts parts required_parts =
     (case parts of
        None \<Rightarrow> False
      | Some p \<Rightarrow>
          (let missing_parts = filter (\<lambda>part. p part = None) required_parts
           in length missing_parts = 0))"

text \<open>\<^verbatim>\<open>parts[key]\<close> raises \<^verbatim>\<open>KeyError\<close> for a key the mapping lacks.\<close>

definition getitem :: "parts \<Rightarrow> string \<Rightarrow> error + string" where
  "getitem p key = (case p key of None \<Rightarrow> Inl KeyError | Some v \<Rightarrow> Inr v)"

text \<open>
  \<^verbatim>\<open>int(s, 16)\<close> on a string of hexadecimal digits; \<^verbatim>\<open>ValueError\<close> on the empty string
  and on any other character. (Python also accepts a sign, a \<^verbatim>\<open>0x\<close> prefix, underscores
  and surrounding blanks; the module only calls it on digits.)
\<close>

definition hex_value :: "char \<Rightarrow> int option" where
  "hex_value c = map_of (zip ''0123456789abcdefABCDEF''
     [0, 1, 2, 3, 4, 5, 6, 7, 8, 9, 10, 11, 12, 13, 14, 15, 10, 11, 12, 13, 14, 15]) c"

definition hex_step :: "char \<Rightarrow> error + int \<Rightarrow> error + int" where
  "hex_step c acc =
     (case (acc, hex_value c) of
        (Inr a, Some d) \<Rightarrow> Inr (16 * a + d)
      | _ \<Rightarrow> Inl ValueError)"

definition int16 :: "string \<Rightarrow> error + int" where
  "int16 s = (if s = [] then Inl ValueError else fold hex_step s (Inr 0))"

text \<open>
  The call of the named tuple's constructor on the filtered mapping: \<^verbatim>\<open>TypeError\<close> when a
  field has no value.
\<close>

definition make_DigestResponse :: "parts \<Rightarrow> int \<Rightarrow> error + DigestResponse" where
  "make_DigestResponse p n =
     (case those (map p [''username'', ''realm'', ''nonce'', ''uri'', ''response'',
                         ''algorithm'', ''opaque'', ''qop'', ''cnonce'']) of
        Some [u, r, no, ur, re, a, opq, q, cn] \<Rightarrow>
          Inr \<lparr>r_username = u, r_realm = r, r_nonce = no, r_uri = ur, r_response = re,
               r_algorithm = a, r_opaque = opq, r_qop = q, r_nc = n, r_cnonce = cn\<rparr>
      | _ \<Rightarrow> Inl TypeError)"

definition make_DigestChallenge :: "parts \<Rightarrow> bool \<Rightarrow> error + DigestChallenge" where
  "make_DigestChallenge p st =
     (case those (map p [''realm'', ''nonce'', ''algorithm'', ''opaque'', ''qop'']) of
        Some [r, no, a, opq, q] \<Rightarrow>
          Inr \<lparr>c_realm = r, c_nonce = no, c_stale = st, c_algorithm = a, c_opaque = opq,
               c_qop = q\<rparr>
      | _ \<Rightarrow> Inl TypeError)"

definition parse_digest_response ::
  "(string \<Rightarrow> parts \<Rightarrow> parts option) \<Rightarrow> hashlib \<Rightarrow> string \<Rightarrow> error + DigestResponse option" where
  "parse_digest_response parse_parts H digest_response_string =
     (let parts = parse_parts digest_response_string [''algorithm'' \<mapsto> ''MD5''] in
      if \<not> check_required_parts parts REQUIRED_DIGEST_RESPONSE_PARTS then Inr None
      else case parts of
        None \<Rightarrow> Inl TypeError
      | Some p \<Rightarrow>
         (case getitem p ''nc'' of
            Inl e \<Rightarrow> Inl e
          | Inr nc \<Rightarrow>
              if nc = [] \<or> filter (\<lambda>c. c \<notin> set ''0123456789abcdefABCDEF'') nc \<noteq> []
              then Inr None
              else (case int16 nc of
                      Inl e \<Rightarrow> Inl e
                    | Inr n \<Rightarrow>
                       (case make_DigestResponse p n of
                          Inl e \<Rightarrow> Inl e
                        | Inr digest_response \<Rightarrow>
                            if r_algorithm digest_response \<notin> set (AVAILABLE_HASH_FUNCS H)
                            then Inr None
                            else if ''auth'' \<noteq> r_qop digest_response then Inr None
                            else Inr (Some digest_response)))))"

definition parse_digest_credentials ::
  "(string \<Rightarrow> parts \<Rightarrow> parts option) \<Rightarrow> hashlib \<Rightarrow> string \<Rightarrow> error + DigestResponse option" where
  "parse_digest_credentials parse_parts H authorization_header =
     (if \<not> is_digest_credential authorization_header then Inr None
      else parse_digest_response parse_parts H (drop 7 authorization_header))"

definition parse_digest_challenge ::
  "(string \<Rightarrow> parts \<Rightarrow> parts option) \<Rightarrow> hashlib \<Rightarrow> string \<Rightarrow> error + DigestChallenge option" where
  "parse_digest_challenge parse_parts H authentication_header =
     (if \<not> is_digest_challenge authentication_header then Inr None
      else
        let parts = parse_parts (drop 7 authentication_header)
                      [''algorithm'' \<mapsto> ''MD5'', ''stale'' \<mapsto> ''false'']
        in if \<not> check_required_parts parts REQUIRED_DIGEST_CHALLENGE_PARTS then Inr None
           else case parts of
             None \<Rightarrow> Inl TypeError
           | Some p \<Rightarrow>
              (case getitem p ''stale'' of
                 Inl e \<Rightarrow> Inl e
               | Inr st \<Rightarrow>
                  (case make_DigestChallenge p (lower st = ''true'') of
                     Inl e \<Rightarrow> Inl e
                   | Inr digest_challenge \<Rightarrow>
                       if c_algorithm digest_challenge \<notin> set (AVAILABLE_HASH_FUNCS H)
                       then Inr None
                       else if ''auth'' \<noteq> c_qop digest_challenge then Inr None
                       else Inr (Some digest_challenge))))"

subsection \<open>Building headers\<close>


text \<open>
  The \<^verbatim>\<open>digest_challenge\<close> argument of \<^verbatim>\<open>build_authorization_request\<close> is a header
  string or a parsed challenge. A header string is false when empty, a named tuple of
  six fields never is.
\<close>

datatype challenge_arg = Header string | Challenge DigestChallenge

definition truthy_challenge :: "challenge_arg option \<Rightarrow> bool" where
  "truthy_challenge dc =
     (case dc of None \<Rightarrow> False | Some (Header h) \<Rightarrow> h \<noteq> [] | Some (Challenge c) \<Rightarrow> True)"

text \<open>
  Lines 187 to 202 of \<^verbatim>\<open>build_authorization_request\<close>: the request once realm, nonce,
  opaque and algorithm are settled.
\<close>

definition authorization_request_of ::
  "((string \<times> string) list \<Rightarrow> string) \<Rightarrow> hashlib \<Rightarrow> string \<Rightarrow> string \<Rightarrow> string \<Rightarrow> int
     \<Rightarrow> string \<Rightarrow> string \<Rightarrow> string \<Rightarrow> string option \<Rightarrow> string option \<Rightarrow> string
     \<Rightarrow> string option \<Rightarrow> error + string" where
  "authorization_request_of format_parts H username method uri nonce_count
       realm nonce opaque password request_digest client_nonce algorithm =
     (let algorithm = or_MD5 algorithm;
          finish = (\<lambda>request_digest.
            Inr (''Digest '' @
              format_parts [(''username'', username), (''realm'', realm), (''nonce'', nonce),
                            (''uri'', uri), (''response'', request_digest),
                            (''algorithm'', algorithm), (''opaque'', opaque),
                            (''qop'', ''auth''), (''nc'', format_08x nonce_count),
                            (''cnonce'', client_nonce)]))
      in if truthy password \<and> truthy request_digest
         then Inl (Exception ''Both password and calculated request_digest were sent.'')
         else if \<not> truthy request_digest then
           (case password of
              None \<Rightarrow> Inl (Exception
                ''Either password or calculated request_digest must be provided.'')
            | Some pw \<Rightarrow>
                if pw = [] then Inl (Exception
                  ''Either password or calculated request_digest must be provided.'')
                else
                 (case calculate_partial_digest H username realm pw algorithm of
                    Inl e \<Rightarrow> Inl e
                  | Inr partial_digest \<Rightarrow>
                     (case calculate_request_digest H method partial_digest None (Some uri)
                             (Some nonce) (Some nonce_count) (Some client_nonce)
                             (Some algorithm) of
                        Inl e \<Rightarrow> Inl e
                      | Inr rd \<Rightarrow> finish rd)))
         else (case request_digest of None \<Rightarrow> Inl TypeError | Some rd \<Rightarrow> finish rd))"

definition build_authorization_request ::
  "(string \<Rightarrow> parts \<Rightarrow> parts option) \<Rightarrow> ((string \<times> string) list \<Rightarrow> string) \<Rightarrow> hashlib
     \<Rightarrow> (nat \<Rightarrow> nat) \<Rightarrow> string \<Rightarrow> string \<Rightarrow> string \<Rightarrow> int \<Rightarrow> challenge_arg option
     \<Rightarrow> string option \<Rightarrow> string option \<Rightarrow> string option \<Rightarrow> string option \<Rightarrow> string option
     \<Rightarrow> string option \<Rightarrow> string option \<Rightarrow> error + string" where
  "build_authorization_request parse_parts format_parts H rnd username method uri nonce_count
       digest_challenge realm nonce opaque password request_digest client_nonce algorithm =
     (let client_nonce = (case client_nonce of
                            None \<Rightarrow> random_hex rnd 32
                          | Some cn \<Rightarrow> if cn = [] then random_hex rnd 32 else cn)
      in if truthy_challenge digest_challenge
            \<and> (truthy realm \<or> truthy nonce \<or> truthy opaque \<or> truthy algorithm)
         then Inl (Exception (''Both digest_challenge and one or more of realm, nonce, '' @
                              ''opaque and algorithmwere sent.''))
         else if truthy_challenge digest_challenge then
           (case (case digest_challenge of
                    Some (Header digest_challenge_header) \<Rightarrow>
                      (case parse_digest_challenge parse_parts H digest_challenge_header of
                         Inl e \<Rightarrow> Inl e
                       | Inr None \<Rightarrow> Inl (Exception
                           (''The provided digest challenge header could not be parsed: '' @
                            digest_challenge_header))
                       | Inr (Some c) \<Rightarrow> Inr c)
                  | Some (Challenge c) \<Rightarrow> Inr c
                  | None \<Rightarrow> Inl TypeError) of
              Inl e \<Rightarrow> Inl e
            | Inr c \<Rightarrow>
                authorization_request_of format_parts H username method uri nonce_count
                  (c_realm c) (c_nonce c) (c_opaque c) password request_digest client_nonce
                  (Some (c_algorithm c)))
         else if \<not> (truthy realm \<and> truthy nonce \<and> truthy opaque)
           then Inl (Exception
             ''Either digest_challenge or realm, nonce, and opaque must be sent.'')
         else (case (realm, nonce, opaque) of
                 (Some r, Some n, Some opq) \<Rightarrow>
                   authorization_request_of format_parts H username method uri nonce_count
                     r n opq password request_digest client_nonce algorithm
               | _ \<Rightarrow> Inl TypeError))"

subsection \<open>The header grammar codec\<close>

text \<open>
  Modelled from the spec: the source of \<^verbatim>\<open>parse_parts\<close> and \<^verbatim>\<open>format_parts\<close>
  (\<^verbatim>\<open>python_digest/utils.py\<close>) is missing, so the codec below follows section 4.1 of the
  specification. \<open>spec_parse_parts\<close> and \<open>spec_format_parts\<close> instantiate the two
  parameters above.
\<close>

definition dquote :: char where
  "dquote = CHR 0x22"

text \<open>Modelled from the spec: the escape character of a quoted value.\<close>

definition backslash :: char where
  "backslash = CHR 0x5C"

text \<open>
  Modelled from the spec: a quoted value has its quotes and backslashes escaped by a
  backslash.
\<close>

definition quote_escape :: "string \<Rightarrow> string" where
  "quote_escape v =
     concat (map (\<lambda>c. if c = dquote \<or> c = backslash then [backslash, c] else [c]) v)"

text \<open>
  Modelled from the spec: \<open>algorithm\<close>, \<open>qop\<close>, \<open>nc\<close> and \<open>stale\<close> are written as bare
  tokens, every other value is quoted.
\<close>

definition bare_keys :: "string list" where
  "bare_keys = [''algorithm'', ''qop'', ''nc'', ''stale'']"

text \<open>Modelled from the spec: one parameter, written as \<open>key=value\<close>.\<close>

definition format_part :: "string \<times> string \<Rightarrow> string" where
  "format_part kv =
     (case kv of (k, v) \<Rightarrow>
        k @ ''='' @ (if k \<in> set bare_keys then v else dquote # quote_escape v @ [dquote]))"

text \<open>Modelled from the spec: the parameters joined by a separator.\<close>

fun join :: "string \<Rightarrow> string list \<Rightarrow> string" where
  "join sep [] = []"
| "join sep [x] = x"
| "join sep (x # y # ys) = x @ sep @ join sep (y # ys)"

text \<open>
  Modelled from the spec: \<^verbatim>\<open>format_parts\<close> writes the parameters in order, separated by
  a comma and a blank.
\<close>

definition spec_format_parts :: "(string \<times> string) list \<Rightarrow> string" where
  "spec_format_parts kvs = join '', '' (map format_part kvs)"

text \<open>
  Modelled from the spec: the input is cut at the commas that stand outside quotes. Every
  double quote opens or closes a quoted stretch, an escaped one as well: a comma between
  two escaped quotes of a value is cut at, and the value is not restored. This is the known
  limitation that the specification keeps. \<open>q\<close> says whether the scan is inside quotes,
  \<open>cur\<close> holds the current segment, reversed.
\<close>

fun split_top :: "bool \<Rightarrow> string \<Rightarrow> string \<Rightarrow> string list" where
  "split_top q cur [] = [rev cur]"
| "split_top q cur (c # cs) =
     (if c = dquote then split_top (\<not> q) (c # cur) cs
      else if c = CHR '','' \<and> \<not> q then rev cur # split_top False [] cs
      else split_top q (c # cur) cs)"

text \<open>Modelled from the spec: linear white space (blank, tab, line feed, return).\<close>

definition is_lws :: "char \<Rightarrow> bool" where
  "is_lws c = (c \<in> set [CHR '' '', CHR 0x09, CHR 0x0A, CHR 0x0D])"

text \<open>Modelled from the spec: white space is trimmed from both ends of a segment.\<close>

definition trim :: "string \<Rightarrow> string" where
  "trim s = dropWhile is_lws (rev (dropWhile is_lws (rev s)))"

text \<open>
  Modelled from the spec: the characters of a token in the sense of RFC 2616, printable
  and no separators.
\<close>

definition token_char :: "char \<Rightarrow> bool" where
  "token_char c =
     (32 < (of_char c :: nat) \<and> (of_char c :: nat) < 127
      \<and> c \<notin> set (''()<>@,;:/[]?={}'' @ [backslash, dquote]))"

text \<open>Modelled from the spec: a token is one or more token characters.\<close>

definition is_token :: "string \<Rightarrow> bool" where
  "is_token s = (s \<noteq> [] \<and> list_all token_char s)"

text \<open>
  Modelled from the spec: the text after an opening quote, up to the closing quote that
  must end the segment, with the escapes removed; \<open>None\<close> on malformed quoting.
\<close>

fun unquote :: "string \<Rightarrow> string option" where
  "unquote [] = None"
| "unquote (c # cs) =
     (if c = dquote then (if cs = [] then Some [] else None)
      else if c = backslash
        then (case cs of [] \<Rightarrow> None | d # ds \<Rightarrow> map_option ((#) d) (unquote ds))
      else map_option ((#) c) (unquote cs))"

text \<open>
  Modelled from the spec: a segment is \<open>token = (quoted-string | token)\<close>; anything else
  does not parse.
\<close>

definition parse_part :: "string \<Rightarrow> (string \<times> string) option" where
  "parse_part seg =
     (let s = trim seg in
      if CHR ''='' \<notin> set s then None
      else
        let key = takeWhile (\<lambda>c. c \<noteq> CHR ''='') s;
            v = tl (dropWhile (\<lambda>c. c \<noteq> CHR ''='') s)
        in if \<not> is_token key then None
           else if v \<noteq> [] \<and> hd v = dquote then map_option (Pair key) (unquote (tl v))
           else if is_token v then Some (key, v)
           else None)"

text \<open>
  Modelled from the spec: \<^verbatim>\<open>parse_parts\<close> fails as a whole when a segment does not
  parse; the parsed values override the defaults.
\<close>

definition spec_parse_parts :: "string \<Rightarrow> parts \<Rightarrow> parts option" where
  "spec_parse_parts parts_string defaults =
     (case those (map parse_part (split_top False [] parts_string)) of
        None \<Rightarrow> None
      | Some kvs \<Rightarrow> Some (fold (\<lambda>kv m. m(fst kv \<mapsto> snd kv)) kvs defaults))"

subsection \<open>Example data\<close>

text \<open>
  A stand-in hash provider, to run the functions on concrete inputs: its digests are the
  first bytes of the data. \<open>host_without_sha512_256\<close> lacks the optional primitive.
\<close>

definition host :: hashlib where
  "host = \<lparr>md5 = take 2, sha256 = take 3, sha512 = take 4, sha512_256 = Some (take 5)\<rparr>"

definition host_without_sha512_256 :: hashlib where
  "host_without_sha512_256 = host\<lparr>sha512_256 := None\<rparr>"

subsection \<open>Notions of the specification\<close>

text \<open>
  The registry of section 4.2: the primitive behind each supported algorithm name, and
  \<open>None\<close> for a name that is not supported on the host.
\<close>

definition supported_hash :: "hashlib \<Rightarrow> string \<Rightarrow> (string \<Rightarrow> string) option" where
  "supported_hash H a =
     (if a = ''MD5'' then Some (md5 H)
      else if a = ''SHA-256'' then Some (sha256 H)
      else if a = ''SHA-512'' then Some (sha512 H)
      else if a = ''SHA-512-256'' then sha512_256 H
      else None)"

text \<open>No two colons in a row: the relation that every pair of neighbours satisfies.\<close>

definition colon_pair :: "char \<Rightarrow> char \<Rightarrow> bool" where
  "colon_pair a b = (\<not> (a = CHR '':'' \<and> b = CHR '':''))"

text \<open>
  The number that a string of hexadecimal digits denotes, computed from the character
  codes: the reading \<^verbatim>\<open>nc\<close> is given in a credential.
\<close>

definition digit_value :: "char \<Rightarrow> int" where
  "digit_value c =
     (if c \<in> set ''0123456789'' then of_char c - 48
      else if c \<in> set ''abcdef'' then of_char c - 87
      else of_char c - 55)"

definition hex_number :: "string \<Rightarrow> int" where
  "hex_number s = foldl (\<lambda>v c. 16 * v + digit_value c) 0 s"

text \<open>The algorithm a call of \<^verbatim>\<open>calculate_request_digest\<close> selects.\<close>

definition selected_algorithm :: "DigestResponse option \<Rightarrow> string option \<Rightarrow> string" where
  "selected_algorithm digest_response algorithm =
     (case digest_response of
        Some d \<Rightarrow> or_MD5 (Some (r_algorithm d))
      | None \<Rightarrow> or_MD5 algorithm)"

text \<open>A parsed credential, to run the functions on.\<close>

definition credential :: DigestResponse where
  "credential = \<lparr>r_username = ''Mufasa'', r_realm = ''testrealm@host.com'',
     r_nonce = ''dcd98b'', r_uri = ''/dir/index.html'', r_response = ''6629fae4'',
     r_algorithm = ''MD5'', r_opaque = ''5ccc069c'', r_qop = ''auth'', r_nc = 1,
     r_cnonce = ''0a4f113b''\<rparr>"

text \<open>The hexadecimal digits, in either case.\<close>

definition is_hex :: "char \<Rightarrow> bool" where
  "is_hex c = (c \<in> set ''0123456789abcdefABCDEF'')"

text \<open>
  Malformed input, as section 7 of the specification lists it: the grammar does not
  parse, a required field is missing, \<open>nc\<close> is not a string of hexadecimal digits, \<open>qop\<close> is
  not \<open>auth\<close>, or the algorithm is not supported.
\<close>

definition malformed_credential ::
  "(string \<Rightarrow> parts \<Rightarrow> parts option) \<Rightarrow> hashlib \<Rightarrow> string \<Rightarrow> bool" where
  "malformed_credential parse_parts H s =
     (case parse_parts s [''algorithm'' \<mapsto> ''MD5''] of
        None \<Rightarrow> True
      | Some p \<Rightarrow>
          list_ex (\<lambda>k. p k = None) REQUIRED_DIGEST_RESPONSE_PARTS
          \<or> (case p ''nc'' of
                None \<Rightarrow> False
              | Some nc \<Rightarrow> nc = [] \<or> list_ex (\<lambda>c. \<not> is_hex c) nc)
          \<or> (case p ''qop'' of None \<Rightarrow> False | Some q \<Rightarrow> q \<noteq> ''auth'')
          \<or> (case p ''algorithm'' of
                None \<Rightarrow> False
              | Some a \<Rightarrow> a \<notin> set (AVAILABLE_HASH_FUNCS H)))"

definition malformed_challenge ::
  "(string \<Rightarrow> parts \<Rightarrow> parts option) \<Rightarrow> hashlib \<Rightarrow> string \<Rightarrow> bool" where
  "malformed_challenge parse_parts H h =
     (\<not> is_digest_challenge h
      \<or> (case parse_parts (drop 7 h) [''algorithm'' \<mapsto> ''MD5'', ''stale'' \<mapsto> ''false''] of
            None \<Rightarrow> True
          | Some p \<Rightarrow>
              list_ex (\<lambda>k. p k = None) REQUIRED_DIGEST_CHALLENGE_PARTS
              \<or> (case p ''qop'' of None \<Rightarrow> False | Some q \<Rightarrow> q \<noteq> ''auth'')
              \<or> (case p ''algorithm'' of
                    None \<Rightarrow> False
                  | Some a \<Rightarrow> a \<notin> set (AVAILABLE_HASH_FUNCS H))))"

text \<open>
  Headers to run the parsers on, with the mapping that the codec reads from each: a
  credential with a given algorithm and \<open>nc\<close>, and a challenge with a given algorithm.
\<close>

definition credential_header :: "string \<Rightarrow> string \<Rightarrow> string" where
  "credential_header algorithm nc =
     ''username=\"Mufasa\", realm=\"testrealm@host.com\", nonce=\"dcd98b\", '' @
     ''uri=\"/dir/index.html\", response=\"6629fae4\", algorithm='' @ algorithm @
     '', opaque=\"5ccc069c\", qop=auth, nc='' @ nc @ '', cnonce=\"0a4f113b\"''"

definition credential_parts :: "string \<Rightarrow> string \<Rightarrow> parts" where
  "credential_parts algorithm nc =
     [''username'' \<mapsto> ''Mufasa'', ''realm'' \<mapsto> ''testrealm@host.com'',
      ''nonce'' \<mapsto> ''dcd98b'', ''uri'' \<mapsto> ''/dir/index.html'',
      ''response'' \<mapsto> ''6629fae4'', ''algorithm'' \<mapsto> algorithm,
      ''opaque'' \<mapsto> ''5ccc069c'', ''qop'' \<mapsto> ''auth'', ''nc'' \<mapsto> nc,
      ''cnonce'' \<mapsto> ''0a4f113b'']"

definition challenge_header :: "string \<Rightarrow> string" where
  "challenge_header algorithm =
     ''Digest realm=\"testrealm@host.com\", qop=auth, nonce=\"dcd98b\", '' @
     ''opaque=\"5ccc069c\", algorithm='' @ algorithm @ '', stale=false''"

definition challenge_parts :: "string \<Rightarrow> parts" where
  "challenge_parts algorithm =
     [''realm'' \<mapsto> ''testrealm@host.com'', ''qop'' \<mapsto> ''auth'', ''nonce'' \<mapsto> ''dcd98b'',
      ''opaque'' \<mapsto> ''5ccc069c'', ''algorithm'' \<mapsto> algorithm, ''stale'' \<mapsto> ''false'']"



text \<open>The number of colons in a nonce, and the text before the first of them.\<close>

definition colons :: "string \<Rightarrow> nat" where
  "colons s = length (filter (\<lambda>c. c = CHR '':'') s)"

definition first_part :: "string \<Rightarrow> string" where
  "first_part s = takeWhile (\<lambda>c. c \<noteq> CHR '':'') s"

section \<open>Properties\<close>

declare hex_of_nat.simps [simp del]

subsection \<open>Strings, digits and the random salt\<close>

lemma takeWhile_sep: "sep \<notin> set a \<Longrightarrow> takeWhile (\<lambda>x. x \<noteq> sep) (a @ sep # r) = a"
  by (induction a) auto

lemma dropWhile_sep: "sep \<notin> set a \<Longrightarrow> dropWhile (\<lambda>x. x \<noteq> sep) (a @ sep # r) = sep # r"
  by (induction a) auto

lemma split_at_sep:
  assumes "sep \<in> set s"
  shows "s = takeWhile (\<lambda>x. x \<noteq> sep) s @ sep # tl (dropWhile (\<lambda>x. x \<noteq> sep) s)"
  using assms by (induction s) auto

lemma str_split_three:
  assumes "sep \<notin> set a" "sep \<notin> set b"
  shows "str_split sep 2 (a @ sep # b @ sep # c) = [a, b, c]"
  using assms by (simp add: numeral_2_eq_2 takeWhile_sep dropWhile_sep)

lemma str_split_parts:
  assumes "length (str_split sep 2 s) = 3"
  shows "\<exists>a b c. s = a @ sep # b @ sep # c \<and> sep \<notin> set a \<and> sep \<notin> set b
           \<and> str_split sep 2 s = [a, b, c]"
proof -
  let ?P = "\<lambda>x. x \<noteq> sep"
  from assms have s: "sep \<in> set s"
    by (auto simp: numeral_2_eq_2 split: if_splits)
  define r where "r = tl (dropWhile ?P s)"
  from s have s_eq: "s = takeWhile ?P s @ sep # r"
    unfolding r_def by (rule split_at_sep)
  from assms s have r: "sep \<in> set r"
    by (auto simp: numeral_2_eq_2 r_def split: if_splits)
  define c where "c = tl (dropWhile ?P r)"
  from r have r_eq: "r = takeWhile ?P r @ sep # c"
    unfolding c_def by (rule split_at_sep)
  have na: "sep \<notin> set (takeWhile ?P s)" and nb: "sep \<notin> set (takeWhile ?P r)"
    by (auto dest: set_takeWhileD)
  have "s = takeWhile ?P s @ sep # takeWhile ?P r @ sep # c"
    using s_eq r_eq by simp
  moreover have "str_split sep 2 s = [takeWhile ?P s, takeWhile ?P r, c]"
    using s r by (simp add: numeral_2_eq_2 r_def c_def)
  ultimately show ?thesis using na nb by blast
qed

lemma hex_digit_mem: "d < 16 \<Longrightarrow> hex_digit d \<in> set ''0123456789abcdef''"
  unfolding hex_digit_def by (rule nth_mem) simp

lemma hexdigest_chars: "set (hexdigest d) \<subseteq> set ''0123456789abcdef''"
proof -
  define S where "S = set ''0123456789abcdef''"
  have "(of_char b :: nat) div 16 < 16" for b :: char
  proof -
    have "(of_char b :: nat) < 256" by (rule nat_of_char_less_256)
    then show ?thesis by arith
  qed
  moreover have "(of_char b :: nat) mod 16 < 16" for b :: char
    by simp
  ultimately have "hex_digit (of_char b div 16) \<in> S" "hex_digit (of_char b mod 16) \<in> S"
    for b :: char
    unfolding S_def by (simp_all only: hex_digit_mem)
  then have "set (hexdigest d) \<subseteq> S"
    unfolding hexdigest_def by auto
  then show ?thesis by (simp only: S_def)
qed

lemma hexdigest_no_colon: "CHR '':'' \<notin> set (hexdigest d)"
proof -
  have "CHR '':'' \<notin> set ''0123456789abcdef''" by simp
  with hexdigest_chars show ?thesis by blast
qed

lemma random_hex_length: "length (random_hex rnd n) = n"
  by (simp add: random_hex_def)

lemma random_hex_chars: "set (random_hex rnd n) \<subseteq> set ''0123456789ABCDEF''"
proof -
  define S where "S = set ''0123456789ABCDEF''"
  have "''0123456789ABCDEF'' ! (rnd x mod 16) \<in> S" for x
    unfolding S_def by (rule nth_mem) simp
  then have "set (random_hex rnd n) \<subseteq> S"
    unfolding random_hex_def by auto
  then show ?thesis by (simp only: S_def)
qed

lemma random_hex_no_colon: "CHR '':'' \<notin> set (random_hex rnd n)"
proof -
  have "CHR '':'' \<notin> set ''0123456789ABCDEF''" by simp
  with random_hex_chars show ?thesis by blast
qed

lemma random_hex_4_nonempty: "random_hex rnd 4 \<noteq> []"
  using random_hex_length [of rnd 4] by auto

subsection \<open>Nonce integrity\<close>

lemma validate_nonce_iff:
  "validate_nonce H rnd nonce secret \<longleftrightarrow>
     (\<exists>t s g. str_split (CHR '':'') 2 nonce = [t, s, g]
        \<and> nonce = calculate_nonce H rnd t secret (Some s))"
proof -
  have "length xs = 3 \<longleftrightarrow> (\<exists>t s g. xs = [t, s, g])" for xs :: "string list"
    by (auto simp: numeral_3_eq_3 length_Suc_conv)
  then show ?thesis
    unfolding validate_nonce_def Let_def by (cases "length (str_split (CHR '':'') 2 nonce) = 3") auto
qed

text \<open>
  Claim C2. A nonce that \<^verbatim>\<open>calculate_nonce\<close> generates for a timestamp and a secret is
  accepted by \<^verbatim>\<open>validate_nonce\<close> under the same secret, whatever the random salts are.
  The timestamp is a number; the model holds its rendering by \<^verbatim>\<open>'%s'\<close>, in which no colon
  occurs. \<^verbatim>\<open>validate_nonce\<close> cuts the nonce at its first two colons, recomputes it from
  the first two parts and the secret, and accepts exactly when the result is the input.
\<close>

theorem C2_nonce_round_trip:
  assumes "CHR '':'' \<notin> set timestamp"
  shows "validate_nonce H rnd' (calculate_nonce H rnd timestamp secret None) secret
    \<and> (\<forall>nonce. validate_nonce H rnd' nonce secret \<longleftrightarrow>
         (\<exists>t s g. str_split (CHR '':'') 2 nonce = [t, s, g]
            \<and> nonce = calculate_nonce H rnd' t secret (Some s)))"
proof -
  define salt where "salt = random_hex rnd 4"
  define sig where "sig = hexdigest (md5 H (timestamp @ '':'' @ salt @ '':'' @ secret))"
  have nonce: "calculate_nonce H rnd timestamp secret None
                 = timestamp @ CHR '':'' # salt @ CHR '':'' # sig"
    by (simp add: calculate_nonce_def salt_def sig_def Let_def)
  have salt: "CHR '':'' \<notin> set salt" "salt \<noteq> []"
    by (simp_all add: salt_def random_hex_no_colon random_hex_4_nonempty)
  have split: "str_split (CHR '':'') 2 (timestamp @ CHR '':'' # salt @ CHR '':'' # sig)
                 = [timestamp, salt, sig]"
    using assms salt(1) by (rule str_split_three)
  have again: "calculate_nonce H rnd' timestamp secret (Some salt)
                 = timestamp @ CHR '':'' # salt @ CHR '':'' # sig"
    using salt(2) by (simp add: calculate_nonce_def sig_def Let_def)
  have "validate_nonce H rnd' (calculate_nonce H rnd timestamp secret None) secret"
    unfolding nonce validate_nonce_def split by (simp add: again)
  then show ?thesis
    using validate_nonce_iff by blast
qed

theorem C2_nonce_round_trip_witness:
  "CHR '':'' \<notin> set ''1700000000.5''
   \<and> validate_nonce host (\<lambda>i. 5 * i)
        (calculate_nonce host (\<lambda>i. 3 * i) ''1700000000.5'' ''s3cret'' None) ''s3cret''"
proof -
  have colon_free: "CHR '':'' \<notin> set ''1700000000.5''"
    by simp
  from C2_nonce_round_trip [OF colon_free] show ?thesis
    using colon_free by blast
qed

subsection \<open>A nonce with an empty salt\<close>

lemma no_colon_successively: "CHR '':'' \<notin> set xs \<Longrightarrow> successively colon_pair xs"
  by (induction xs) (auto simp: successively_Cons colon_pair_def)

lemma valid_nonce_shape:
  assumes "validate_nonce H rnd nonce secret"
  shows "\<exists>t s h. nonce = t @ CHR '':'' # s @ CHR '':'' # h \<and> CHR '':'' \<notin> set t
          \<and> s \<noteq> [] \<and> CHR '':'' \<notin> set s \<and> CHR '':'' \<notin> set h"
proof -
  from assms have len: "length (str_split (CHR '':'') 2 nonce) = 3"
    by (auto simp: validate_nonce_def Let_def split: if_splits)
  then obtain a b c where abc: "CHR '':'' \<notin> set a" "CHR '':'' \<notin> set b"
      "str_split (CHR '':'') 2 nonce = [a, b, c]"
    using str_split_parts by blast
  from assms abc(3) have eq: "nonce = calculate_nonce H rnd a secret (Some b)"
    by (auto simp: validate_nonce_def Let_def split: if_splits)
  define s where "s = (if b = [] then random_hex rnd 4 else b)"
  have s: "s \<noteq> []" "CHR '':'' \<notin> set s"
    using abc(2) by (auto simp: s_def random_hex_4_nonempty random_hex_no_colon)
  have "nonce = a @ CHR '':'' # s @ CHR '':'' # hexdigest (md5 H (a @ '':'' @ s @ '':'' @ secret))"
    unfolding eq by (simp add: calculate_nonce_def s_def Let_def)
  with abc(1) s hexdigest_no_colon show ?thesis by blast
qed

lemma shape_no_double:
  assumes "CHR '':'' \<notin> set t" "s \<noteq> []" "CHR '':'' \<notin> set s" "CHR '':'' \<notin> set h"
  shows "successively colon_pair (t @ CHR '':'' # s @ CHR '':'' # h)"
proof -
  have "successively colon_pair t" "successively colon_pair s" "successively colon_pair h"
    using assms by (simp_all add: no_colon_successively)
  moreover have "t \<noteq> [] \<Longrightarrow> last t \<noteq> CHR '':''" "last s \<noteq> CHR '':''" "hd s \<noteq> CHR '':''"
      "h \<noteq> [] \<Longrightarrow> hd h \<noteq> CHR '':''"
    using assms by (metis last_in_set, metis last_in_set, metis hd_in_set, metis hd_in_set)
  ultimately show ?thesis
    using assms(2)
    by (auto simp: successively_append_iff successively_Cons colon_pair_def)
qed

lemma double_colon: "\<not> successively colon_pair (t @ CHR '':'' # CHR '':'' # sig)"
  by (simp add: successively_append_iff successively_Cons colon_pair_def)

text \<open>
  Claim C10. A nonce whose salt part is empty never validates: for every timestamp text
  \<open>t\<close>, signature \<open>sig\<close>, secret and random source, \<^verbatim>\<open>validate_nonce(t + "::" + sig, secret)\<close>
  is false. A recomputed nonce has a salt that is not empty (the one given or four fresh
  characters), so it never holds two colons in a row.
\<close>

theorem C10_empty_salt_never_validates:
  "\<not> validate_nonce H rnd (t @ ''::'' @ sig) secret"
proof
  assume "validate_nonce H rnd (t @ ''::'' @ sig) secret"
  then obtain t' s h where "t @ ''::'' @ sig = t' @ CHR '':'' # s @ CHR '':'' # h"
     "CHR '':'' \<notin> set t'" "s \<noteq> []" "CHR '':'' \<notin> set s" "CHR '':'' \<notin> set h"
    using valid_nonce_shape by blast
  then have "successively colon_pair (t @ ''::'' @ sig)"
    using shape_no_double by simp
  then show False using double_colon [of t sig] by simp
qed

subsection \<open>The timestamp of a nonce\<close>

lemma colons_none: "CHR '':'' \<notin> set a \<Longrightarrow> colons a = 0"
  by (auto simp: colons_def filter_empty_conv)

lemma colons_append: "colons (a @ CHR '':'' # r) = colons a + Suc (colons r)"
  by (simp add: colons_def)

lemma colons_member: "0 < colons s \<longleftrightarrow> CHR '':'' \<in> set s"
  by (auto simp: colons_def filter_empty_conv)

lemma str_split_colons: "length (str_split (CHR '':'') 2 s) = 3 \<longleftrightarrow> 2 \<le> colons s"
proof
  assume "length (str_split (CHR '':'') 2 s) = 3"
  from str_split_parts [OF this] obtain a b c where "s = a @ CHR '':'' # b @ CHR '':'' # c"
    by blast
  then show "2 \<le> colons s"
    by (simp add: colons_append)
next
  let ?P = "\<lambda>x. x \<noteq> CHR '':''"
  assume two: "2 \<le> colons s"
  then have s: "CHR '':'' \<in> set s"
    using colons_member [of s] by simp
  define r where "r = tl (dropWhile ?P s)"
  from s have s_eq: "s = takeWhile ?P s @ CHR '':'' # r"
    unfolding r_def by (rule split_at_sep)
  have "CHR '':'' \<notin> set (takeWhile ?P s)"
    by (auto dest: set_takeWhileD)
  then have "colons (takeWhile ?P s) = 0"
    by (rule colons_none)
  then have "colons s = Suc (colons r)"
    using colons_append [of "takeWhile ?P s" r] s_eq by simp
  with two have "CHR '':'' \<in> set r"
    using colons_member [of r] by simp
  with s show "length (str_split (CHR '':'') 2 s) = 3"
    by (simp add: numeral_2_eq_2 r_def)
qed

lemma str_split_first:
  assumes "length (str_split (CHR '':'') 2 s) = 3"
  shows "str_split (CHR '':'') 2 s ! 0 = first_part s"
proof -
  from str_split_parts [OF assms] obtain a b c
    where s: "s = a @ CHR '':'' # b @ CHR '':'' # c" and a: "CHR '':'' \<notin> set a"
      and split: "str_split (CHR '':'') 2 s = [a, b, c]"
    by blast
  have "first_part s = a"
    unfolding first_part_def s using a by (rule takeWhile_sep)
  with split show ?thesis by simp
qed

lemma get_nonce_timestamp_eq:
  "get_nonce_timestamp float nonce =
     (if colons nonce < 2 then Inr None
      else case float (first_part nonce) of
             Inr x \<Rightarrow> Inr (Some x)
           | Inl e \<Rightarrow> if e = ValueError then Inr None else Inl e)"
proof (cases "length (str_split (CHR '':'') 2 nonce) = 3")
  case True
  then have "\<not> colons nonce < 2"
    by (simp add: str_split_colons)
  then show ?thesis
    using True by (simp add: get_nonce_timestamp_def Let_def str_split_first)
next
  case False
  then have "colons nonce < 2"
    by (simp add: str_split_colons)
  then show ?thesis
    using False by (simp add: get_nonce_timestamp_def Let_def)
qed

lemma calculate_nonce_shape:
  "\<exists>salt' sig. calculate_nonce H rnd timestamp secret salt
                  = timestamp @ CHR '':'' # salt' @ CHR '':'' # sig"
  unfolding calculate_nonce_def Let_def by (intro exI) simp

lemma nonce_parts:
  assumes "CHR '':'' \<notin> set timestamp"
  shows "2 \<le> colons (calculate_nonce H rnd timestamp secret salt)"
    "first_part (calculate_nonce H rnd timestamp secret salt) = timestamp"
proof -
  from calculate_nonce_shape obtain salt' sig
    where n: "calculate_nonce H rnd timestamp secret salt
                = timestamp @ CHR '':'' # salt' @ CHR '':'' # sig"
    by blast
  show "2 \<le> colons (calculate_nonce H rnd timestamp secret salt)"
    unfolding n by (simp add: colons_append)
  show "first_part (calculate_nonce H rnd timestamp secret salt) = timestamp"
    unfolding n first_part_def using assms by (rule takeWhile_sep)
qed

text \<open>
  Claim C7. \<^verbatim>\<open>get_nonce_timestamp\<close> cuts the nonce at its first two colons and gives the
  text before the first colon to \<^verbatim>\<open>float\<close>. On a nonce that \<^verbatim>\<open>calculate_nonce\<close> generates
  for a timestamp, this text is the rendering of the timestamp by \<^verbatim>\<open>'%s'\<close>, in which no
  colon occurs: the result is the float \<open>t\<close> that \<^verbatim>\<open>float\<close> reads from the rendering, the
  timestamp up to the precision of the rendering. A nonce with fewer than two colons gives
  \<^verbatim>\<open>None\<close>, and so does a nonce on whose first part \<^verbatim>\<open>float\<close> raises \<^verbatim>\<open>ValueError\<close>;
  these are the only nonces that give \<^verbatim>\<open>None\<close>. When \<^verbatim>\<open>float\<close> reads the first part of a
  nonce with two colons, the result is the float read.
\<close>

theorem C7_nonce_timestamp:
  assumes "CHR '':'' \<notin> set timestamp" and "float timestamp = Inr t"
  shows "get_nonce_timestamp float (calculate_nonce H rnd timestamp secret salt) = Inr (Some t)
    \<and> (\<forall>nonce. colons nonce < 2 \<longrightarrow> get_nonce_timestamp float nonce = Inr None)
    \<and> (\<forall>nonce. float (first_part nonce) = Inl ValueError
          \<longrightarrow> get_nonce_timestamp float nonce = Inr None)
    \<and> (\<forall>nonce x. 2 \<le> colons nonce \<and> float (first_part nonce) = Inr x
          \<longrightarrow> get_nonce_timestamp float nonce = Inr (Some x))
    \<and> (\<forall>nonce. get_nonce_timestamp float nonce = Inr None
          \<longleftrightarrow> colons nonce < 2 \<or> float (first_part nonce) = Inl ValueError)"
proof (intro conjI allI impI)
  show "get_nonce_timestamp float (calculate_nonce H rnd timestamp secret salt) = Inr (Some t)"
    using nonce_parts [OF assms(1), of H rnd secret salt] assms(2)
    by (simp add: get_nonce_timestamp_eq)
next
  fix nonce
  assume "colons nonce < 2"
  then show "get_nonce_timestamp float nonce = Inr None"
    by (simp add: get_nonce_timestamp_eq)
next
  fix nonce
  assume "float (first_part nonce) = Inl ValueError"
  then show "get_nonce_timestamp float nonce = Inr None"
    by (simp add: get_nonce_timestamp_eq)
next
  fix nonce x
  assume "2 \<le> colons nonce \<and> float (first_part nonce) = Inr x"
  then show "get_nonce_timestamp float nonce = Inr (Some x)"
    by (simp add: get_nonce_timestamp_eq)
next
  fix nonce
  show "get_nonce_timestamp float nonce = Inr None
          \<longleftrightarrow> colons nonce < 2 \<or> float (first_part nonce) = Inl ValueError"
    by (auto simp: get_nonce_timestamp_eq split: sum.splits)
qed

lemmas python_float_simps = python_float_def strip_def is_space_def split_sign_def lower_def
  lower_char_def ascii_upper_def ascii_lower_def float_number_def is_digit_def
  decimal_value_def Let_def

theorem C7_nonce_timestamp_witness:
  "CHR '':'' \<notin> set ''1700000000.5''
   \<and> python_float ''1700000000.5'' = Inr (Decimal False 17000000005 (- 1))
   \<and> get_nonce_timestamp python_float
         (calculate_nonce host (\<lambda>i. 3 * i) ''1700000000.5'' ''s3cret'' None)
       = Inr (Some (Decimal False 17000000005 (- 1)))
   \<and> colons ''1700000000.5:5ccc'' < 2
   \<and> get_nonce_timestamp python_float ''1700000000.5:5ccc'' = Inr None
   \<and> python_float (first_part ''0x10:5ccc:00'') = Inl ValueError
   \<and> get_nonce_timestamp python_float ''0x10:5ccc:00'' = Inr None
   \<and> 2 \<le> colons ''12.5:5ccc:00''
   \<and> python_float (first_part ''12.5:5ccc:00'') = Inr (Decimal False 125 (- 1))
   \<and> get_nonce_timestamp python_float ''12.5:5ccc:00'' = Inr (Some (Decimal False 125 (- 1)))"
proof -
  have colon_free: "CHR '':'' \<notin> set ''1700000000.5''"
    by simp
  have reads: "python_float ''1700000000.5'' = Inr (Decimal False 17000000005 (- 1))"
    by (simp add: python_float_simps)
  have short: "colons ''1700000000.5:5ccc'' < 2"
    by (simp add: colons_def)
  have bad: "python_float (first_part ''0x10:5ccc:00'') = Inl ValueError"
    by (simp add: first_part_def python_float_simps)
  have long: "2 \<le> colons ''12.5:5ccc:00''"
    by (simp add: colons_def)
  have good: "python_float (first_part ''12.5:5ccc:00'') = Inr (Decimal False 125 (- 1))"
    by (simp add: first_part_def python_float_simps)
  note inst = C7_nonce_timestamp [where float = python_float and H = host
      and rnd = "\<lambda>i. 3 * i" and secret = "''s3cret''" and salt = None, OF colon_free reads]
  from inst have round_trip: "get_nonce_timestamp python_float
         (calculate_nonce host (\<lambda>i. 3 * i) ''1700000000.5'' ''s3cret'' None)
       = Inr (Some (Decimal False 17000000005 (- 1)))"
    by (rule conjunct1)
  from inst short have few: "get_nonce_timestamp python_float ''1700000000.5:5ccc'' = Inr None"
    by blast
  from inst bad have rejected: "get_nonce_timestamp python_float ''0x10:5ccc:00'' = Inr None"
    by blast
  from inst long good
  have read: "get_nonce_timestamp python_float ''12.5:5ccc:00'' = Inr (Some (Decimal False 125 (- 1)))"
    by blast
  from colon_free reads round_trip short few bad rejected long good read show ?thesis
    by (intro conjI)
qed

text \<open>
  \<^verbatim>\<open>float\<close> reads more than decimal numbers: for a first part \<^verbatim>\<open>nan\<close>, or an infinity
  with a sign and a blank before it, \<^verbatim>\<open>get_nonce_timestamp\<close> returns a float, not
  \<^verbatim>\<open>None\<close>.
\<close>

theorem C7_counterexample:
  "get_nonce_timestamp python_float ''nan:5ccc:d41d8cd9'' = Inr (Some Nan)
   \<and> get_nonce_timestamp python_float '' -Infinity:5ccc:d41d8cd9'' = Inr (Some (Infinite True))"
  by (simp add: get_nonce_timestamp_def numeral_2_eq_2 python_float_simps)

subsection \<open>The Digest scheme\<close>

lemma same_letter_Digest:
  "same_letter z (CHR ''D'') \<longleftrightarrow> lower_char z = CHR ''d''"
  "same_letter z (CHR ''i'') \<longleftrightarrow> lower_char z = CHR ''i''"
  "same_letter z (CHR ''g'') \<longleftrightarrow> lower_char z = CHR ''g''"
  "same_letter z (CHR ''e'') \<longleftrightarrow> lower_char z = CHR ''e''"
  "same_letter z (CHR ''s'') \<longleftrightarrow> lower_char z = CHR ''s''"
  "same_letter z (CHR ''t'') \<longleftrightarrow> lower_char z = CHR ''t''"
  "same_letter z (CHR '' '') \<longleftrightarrow> lower_char z = CHR '' ''"
  unfolding same_letter_def lower_char_def ascii_upper_def ascii_lower_def
  by (auto split: if_splits)

lemma lower_digest_iff:
  "lower (take 7 h) = ''digest '' \<longleftrightarrow> equal_ignoring_case (take 7 h) ''Digest ''"
  unfolding equal_ignoring_case_def lower_def
  by (auto simp: list_all2_Cons2 map_eq_Cons_conv same_letter_Digest)

lemma equal_ignoring_case_length: "equal_ignoring_case xs ys \<Longrightarrow> length xs = length ys"
  unfolding equal_ignoring_case_def by (rule list_all2_lengthD)

text \<open>
  Claim C9. \<^verbatim>\<open>is_digest_credential\<close> and \<^verbatim>\<open>is_digest_challenge\<close> are true exactly when the
  first 7 characters of the header, compared without regard to case, are \<^verbatim>\<open>Digest \<close>
  (with the blank). So they are false for a header shorter than 7 characters and for
  another scheme such as \<^verbatim>\<open>Basic\<close>.
\<close>

theorem C9_digest_scheme:
  "(is_digest_credential h \<longleftrightarrow> equal_ignoring_case (take 7 h) ''Digest '')
   \<and> (is_digest_challenge h \<longleftrightarrow> equal_ignoring_case (take 7 h) ''Digest '')
   \<and> \<not> (length h < 7 \<and> (is_digest_credential h \<or> is_digest_challenge h))
   \<and> \<not> is_digest_credential (''Basic '' @ rest)
   \<and> \<not> is_digest_challenge (''Basic '' @ rest)"
proof -
  have iff: "is_digest_credential h \<longleftrightarrow> equal_ignoring_case (take 7 h) ''Digest ''"
    "is_digest_challenge h \<longleftrightarrow> equal_ignoring_case (take 7 h) ''Digest ''"
    unfolding is_digest_credential_def is_digest_challenge_def by (rule lower_digest_iff)+
  have short: "\<not> equal_ignoring_case (take 7 h) ''Digest ''" if "length h < 7"
    using that equal_ignoring_case_length [of "take 7 h" "''Digest ''"] by auto
  have basic: "lower (take 7 (''Basic '' @ rest)) \<noteq> ''digest ''"
    by (simp add: lower_def lower_char_def ascii_upper_def ascii_lower_def)
  show ?thesis
    using iff short basic
    unfolding is_digest_credential_def is_digest_challenge_def by blast
qed

subsection \<open>The request digest\<close>

lemma supported_hash_available:
  "a \<in> set (AVAILABLE_HASH_FUNCS H) \<longleftrightarrow> supported_hash H a \<noteq> None"
  by (auto simp: AVAILABLE_HASH_FUNCS_def supported_hash_def)

lemma get_hash_func_supported:
  "supported_hash H a = Some h \<Longrightarrow> get_hash_func H a = (\<lambda>d. Inr (h d))"
  by (auto simp: supported_hash_def get_hash_func_def split: if_splits)

lemma or_MD5_Some: "a \<noteq> [] \<Longrightarrow> or_MD5 (Some a) = a"
  by (simp add: or_MD5_def)

lemma supported_nonempty: "supported_hash H a = Some h \<Longrightarrow> a \<noteq> []"
  by (auto simp: supported_hash_def)

lemma request_digest_of_supported:
  assumes "supported_hash H a = Some h"
  shows "request_digest_of H method pd uri nonce k cn (Some a) =
     Inr (hexdigest (h (pd @ '':'' @ nonce @ '':'' @ format_08x k @ '':'' @ cn @ '':auth:'' @
            hexdigest (h (method @ '':'' @ uri)))))"
  using assms
  by (simp add: request_digest_of_def Let_def or_MD5_Some supported_nonempty
        get_hash_func_supported)

lemma hex_of_nat_length: "n < 16 ^ k \<Longrightarrow> 0 < k \<Longrightarrow> length (hex_of_nat n) \<le> k"
proof (induction n arbitrary: k rule: hex_of_nat.induct)
  case (1 n)
  show ?case
  proof (cases "n < 16")
    case True
    with 1(3) show ?thesis by (subst hex_of_nat.simps) simp
  next
    case False
    then obtain j where k: "k = Suc j" using 1(3) by (cases k) auto
    with False 1(2) have j: "0 < j" by (cases j) auto
    from 1(2) k have "n div 16 < 16 ^ j"
      by (simp add: less_mult_imp_div_less)
    with 1(1) [OF False _ j] have "length (hex_of_nat (n div 16)) \<le> j" by simp
    with False k show ?thesis by (subst hex_of_nat.simps) simp
  qed
qed

lemma hex_of_nat_chars: "set (hex_of_nat n) \<subseteq> set ''0123456789abcdef''"
proof (induction n rule: hex_of_nat.induct)
  case (1 n)
  define S where "S = set ''0123456789abcdef''"
  have d: "hex_digit (n mod 16) \<in> S" "n < 16 \<Longrightarrow> hex_digit n \<in> S"
    unfolding S_def by (simp_all add: hex_digit_mem del: set_simps list.set)
  have "set (hex_of_nat n) \<subseteq> S"
  proof (cases "n < 16")
    case True
    with d show ?thesis by (subst hex_of_nat.simps) simp
  next
    case False
    from 1 [OF False] have "set (hex_of_nat (n div 16)) \<subseteq> S" by (simp only: S_def)
    with False d show ?thesis by (subst hex_of_nat.simps) simp
  qed
  then show ?case by (simp only: S_def)
qed

lemma hex_of_nat_nonempty: "hex_of_nat n \<noteq> []"
  by (subst hex_of_nat.simps) simp

lemma format_08x_eight:
  assumes "0 \<le> n" "n < 2 ^ 32"
  shows "length (format_08x n) = 8 \<and> set (format_08x n) \<subseteq> set ''0123456789abcdef''"
proof -
  have "nat n < 16 ^ 8" using assms by simp
  then have len: "length (hex_of_nat (nat n)) \<le> 8"
    by (rule hex_of_nat_length) simp
  define S where "S = set ''0123456789abcdef''"
  have "CHR ''0'' \<in> S" "set (hex_of_nat (nat n)) \<subseteq> S"
    unfolding S_def using hex_of_nat_chars by simp_all
  then have "set (format_08x n) \<subseteq> S"
    using assms(1) by (auto simp: format_08x_def zero_pad_def)
  then show ?thesis
    using assms(1) len by (simp add: format_08x_def zero_pad_def S_def del: set_simps list.set)
qed

lemma hex_of_nat_small: "n < 16 \<Longrightarrow> hex_of_nat n = [hex_digit n]"
  by (subst hex_of_nat.simps) simp

lemma hex_of_nat_big:
  "\<not> n < 16 \<Longrightarrow> hex_of_nat n = hex_of_nat (n div 16) @ [hex_digit (n mod 16)]"
  by (subst hex_of_nat.simps) simp

lemma replicate_zeros:
  "replicate 7 c = [c, c, c, c, c, c, c]" "replicate 6 c = [c, c, c, c, c, c]"
  by (simp_all add: eval_nat_numeral)

lemma format_08x_examples:
  "format_08x 1 = ''00000001''" "format_08x 255 = ''000000ff''"
  "format_08x 4294967296 = ''100000000''"
  by (simp_all add: format_08x_def zero_pad_def hex_of_nat_small hex_of_nat_big hex_digit_def
        replicate_zeros)


lemma hex_value_digit: "d < 16 \<Longrightarrow> hex_value (hex_digit d) = Some (int d)"
proof -
  assume "d < 16"
  then have "d \<in> set [0..<16]" by simp
  then show ?thesis
    by (simp add: upt_rec) (elim disjE; simp add: hex_value_def hex_digit_def)
qed

lemma hex_step_digit: "d < 16 \<Longrightarrow> hex_step (hex_digit d) (Inr a) = Inr (16 * a + int d)"
  by (simp add: hex_step_def hex_value_digit)

lemma fold_hex_of_nat: "fold hex_step (hex_of_nat n) (Inr 0) = Inr (int n)"
proof (induction n rule: hex_of_nat.induct)
  case (1 n)
  show ?case
  proof (cases "n < 16")
    case True
    then show ?thesis by (subst hex_of_nat.simps) (simp add: hex_step_digit)
  next
    case False
    have "16 * int (n div 16) + int (n mod 16) = int n"
      by presburger
    with False 1 [OF False] show ?thesis
      by (subst hex_of_nat.simps) (simp add: hex_step_digit)
  qed
qed

lemma fold_zeros: "fold hex_step (replicate k (CHR ''0'')) (Inr 0) = Inr 0"
proof (induction k)
  case 0
  show ?case by simp
next
  case (Suc k)
  have "hex_step (CHR ''0'') (Inr 0) = Inr 0"
    by (simp add: hex_step_def hex_value_def)
  with Suc show ?case
    by (simp only: replicate_Suc fold_simps)
qed

lemma int16_format_08x:
  assumes "0 \<le> n"
  shows "int16 (format_08x n) = Inr n"
proof -
  have "fold hex_step (zero_pad 8 (hex_of_nat (nat n))) (Inr 0) = Inr (int (nat n))"
    unfolding zero_pad_def fold_append comp_def fold_zeros by (rule fold_hex_of_nat)
  moreover have "zero_pad 8 (hex_of_nat (nat n)) \<noteq> []"
    by (simp add: zero_pad_def hex_of_nat_nonempty)
  ultimately show ?thesis
    using assms by (simp add: int16_def format_08x_def)
qed

lemma truthy_Some: "truthy (Some v) \<longleftrightarrow> v \<noteq> []"
  by (simp add: truthy_def)

lemma truthy_None: "\<not> truthy None"
  by (simp add: truthy_def)

text \<open>
  Claim C1, as amended. For a supported algorithm with hash \<open>h\<close>,
  \<^verbatim>\<open>calculate_request_digest\<close> returns
  \<open>h(partial_digest : nonce : hex8(nonce_count) : client_nonce : auth : h(method : uri))\<close>,
  in hexadecimal: when it is called with the individual parameters and uri, nonce and
  client nonce are not empty, and when it is called with a \<^verbatim>\<open>DigestResponse\<close> that
  carries them (empty or not). \<open>hex8\<close> is \<^verbatim>\<open>'%08x'\<close>: for a count from 0 below \<open>2^32\<close> it
  is exactly 8 lowercase hexadecimal digits that read back as the count; 1 gives
  \<^verbatim>\<open>00000001\<close> and 255 gives \<^verbatim>\<open>000000ff\<close>.
\<close>

theorem C1_request_digest_formula:
  assumes "supported_hash H algorithm = Some h"
  shows "(uri \<noteq> [] \<and> nonce \<noteq> [] \<and> client_nonce \<noteq> [] \<longrightarrow>
           calculate_request_digest H method partial_digest None
               (Some uri) (Some nonce) (Some nonce_count) (Some client_nonce) (Some algorithm)
             = Inr (hexdigest (h (partial_digest @ '':'' @ nonce @ '':'' @
                      format_08x nonce_count @ '':'' @ client_nonce @ '':auth:'' @
                      hexdigest (h (method @ '':'' @ uri))))))
    \<and> (r_algorithm d = algorithm \<longrightarrow>
           calculate_request_digest H method partial_digest (Some d) None None None None None
             = Inr (hexdigest (h (partial_digest @ '':'' @ r_nonce d @ '':'' @
                      format_08x (r_nc d) @ '':'' @ r_cnonce d @ '':auth:'' @
                      hexdigest (h (method @ '':'' @ r_uri d))))))
    \<and> (0 \<le> nonce_count \<and> nonce_count < 2 ^ 32 \<longrightarrow>
           length (format_08x nonce_count) = 8
           \<and> set (format_08x nonce_count) \<subseteq> set ''0123456789abcdef''
           \<and> int16 (format_08x nonce_count) = Inr nonce_count)
    \<and> format_08x 1 = ''00000001'' \<and> format_08x 255 = ''000000ff''"
proof -
  have individual: "calculate_request_digest H method partial_digest None
               (Some uri) (Some nonce) (Some nonce_count) (Some client_nonce) (Some algorithm)
             = request_digest_of H method partial_digest uri nonce nonce_count client_nonce
                 (Some algorithm)"
    if "uri \<noteq> []" "nonce \<noteq> []" "client_nonce \<noteq> []"
    using that by (simp add: calculate_request_digest_def truthy_Some)
  have response: "calculate_request_digest H method partial_digest (Some d)
               None None None None None
             = request_digest_of H method partial_digest (r_uri d) (r_nonce d) (r_nc d)
                 (r_cnonce d) (Some (r_algorithm d))"
    by (simp add: calculate_request_digest_def truthy_None truthy_int_def)
  show ?thesis
    using assms individual response format_08x_eight [of nonce_count]
      int16_format_08x [of nonce_count] format_08x_examples(1,2)
    by (simp add: request_digest_of_supported)
qed

theorem C1_request_digest_formula_witness:
  "supported_hash host ''MD5'' = Some (take 2)
   \<and> calculate_request_digest host ''GET'' ''0123abcd'' None
        (Some ''/dir/index.html'') (Some ''dcd98b'') (Some 255) (Some ''0a4f113b'') (Some ''MD5'')
      = Inr (hexdigest (take 2 (''0123abcd'' @ '':'' @ ''dcd98b'' @ '':'' @
               ''000000ff'' @ '':'' @ ''0a4f113b'' @ '':auth:'' @
               hexdigest (take 2 (''GET'' @ '':'' @ ''/dir/index.html'')))))
   \<and> length (format_08x 255) = 8"
proof -
  have supported: "supported_hash host ''MD5'' = Some (take 2)"
    by (simp add: supported_hash_def host_def)
  from C1_request_digest_formula [OF supported, of "''/dir/index.html''" "''dcd98b''"
      "''0a4f113b''" "''GET''" "''0123abcd''" 255]
  show ?thesis
    using supported by simp
qed

text \<open>
  The claim as stated fails for an empty uri, where the call with individual parameters
  raises, and for a count of \<open>2^32\<close>, which takes 9 digits.
\<close>

theorem C1_counterexample:
  "calculate_request_digest host ''GET'' ''0123abcd'' None
      (Some '''') (Some ''dcd98b'') (Some 1) (Some ''0a4f113b'') (Some ''MD5'')
     = Inl (Exception ''Neither digest_response nor all individual parameters were sent.'')
   \<and> format_08x 4294967296 = ''100000000''"
  by (simp add: calculate_request_digest_def truthy_def format_08x_examples(3))

subsection \<open>Parsing a credential\<close>

lemma hex_value_digit_value:
  assumes "is_hex c"
  shows "hex_value c = Some (digit_value c) \<and> 0 \<le> digit_value c"
  using assms by (simp add: is_hex_def, elim disjE) (simp_all add: hex_value_def digit_value_def)

lemma fold_hex_step:
  assumes "list_all is_hex s"
  shows "fold hex_step s (Inr a) = Inr (foldl (\<lambda>v c. 16 * v + digit_value c) a s)"
  using assms
proof (induction s arbitrary: a)
  case Nil
  show ?case by simp
next
  case (Cons c s)
  then have c: "hex_value c = Some (digit_value c)"
    and s: "list_all is_hex s"
    using hex_value_digit_value [of c] by simp_all
  have "hex_step c (Inr a) = Inr (16 * a + digit_value c)"
    by (simp add: hex_step_def c)
  with Cons.IH [OF s] show ?case by simp
qed

lemma foldl_hex_nonneg:
  assumes "list_all is_hex s" "0 \<le> a"
  shows "0 \<le> foldl (\<lambda>v c. 16 * v + digit_value c) a s"
  using assms
proof (induction s arbitrary: a)
  case Nil
  then show ?case by simp
next
  case (Cons c s)
  then have c: "0 \<le> digit_value c"
    and s: "list_all is_hex s"
    using hex_value_digit_value [of c] by simp_all
  from c Cons.prems(2) have "0 \<le> 16 * a + digit_value c" by simp
  with Cons.IH [OF s] show ?case by simp
qed

lemma int16_hex:
  assumes "s \<noteq> []" "list_all is_hex s"
  shows "int16 s = Inr (hex_number s)" "0 \<le> hex_number s"
  using assms fold_hex_step [of s 0] foldl_hex_nonneg [of s 0]
  by (simp_all add: int16_def hex_number_def)

lemma filter_non_hex:
  "filter (\<lambda>c. c \<notin> set ''0123456789abcdefABCDEF'') s \<noteq> [] \<longleftrightarrow> \<not> list_all is_hex s"
  by (auto simp: filter_empty_conv list_all_iff is_hex_def)

lemma check_required_parts_iff:
  "check_required_parts parts required \<longleftrightarrow>
     (\<exists>p. parts = Some p \<and> list_all (\<lambda>k. p k \<noteq> None) required)"
  by (cases parts) (auto simp: check_required_parts_def filter_empty_conv list_all_iff)

lemma parse_digest_response_None:
  "parse_parts s [''algorithm'' \<mapsto> ''MD5''] = None \<Longrightarrow>
   parse_digest_response parse_parts H s = Inr None"
  by (simp add: parse_digest_response_def check_required_parts_def)

lemma parse_digest_response_missing:
  assumes "parse_parts s [''algorithm'' \<mapsto> ''MD5''] = Some p"
    and "k \<in> set REQUIRED_DIGEST_RESPONSE_PARTS" "p k = None"
  shows "parse_digest_response parse_parts H s = Inr None"
proof -
  have "\<not> check_required_parts (Some p) REQUIRED_DIGEST_RESPONSE_PARTS"
    using assms(2,3) by (auto simp: check_required_parts_iff list_all_iff)
  then show ?thesis
    by (simp add: parse_digest_response_def assms(1))
qed

lemma parse_digest_response_present:
  assumes "parse_parts s [''algorithm'' \<mapsto> ''MD5''] = Some p"
    and "p ''username'' = Some u" "p ''realm'' = Some r" "p ''nonce'' = Some no"
    and "p ''uri'' = Some ur" "p ''response'' = Some re" "p ''algorithm'' = Some a"
    and "p ''opaque'' = Some opq" "p ''qop'' = Some q" "p ''nc'' = Some nc"
    and "p ''cnonce'' = Some cn"
  shows "parse_digest_response parse_parts H s =
     Inr (if nc \<noteq> [] \<and> list_all is_hex nc
             \<and> a \<in> set (AVAILABLE_HASH_FUNCS H) \<and> q = ''auth''
          then Some \<lparr>r_username = u, r_realm = r, r_nonce = no, r_uri = ur, r_response = re,
                     r_algorithm = a, r_opaque = opq, r_qop = q, r_nc = hex_number nc,
                     r_cnonce = cn\<rparr>
          else None)"
proof -
  have req: "check_required_parts (Some p) REQUIRED_DIGEST_RESPONSE_PARTS"
    using assms(2-) by (simp add: check_required_parts_iff REQUIRED_DIGEST_RESPONSE_PARTS_def)
  have mk: "make_DigestResponse p n =
     Inr \<lparr>r_username = u, r_realm = r, r_nonce = no, r_uri = ur, r_response = re,
          r_algorithm = a, r_opaque = opq, r_qop = q, r_nc = n, r_cnonce = cn\<rparr>" for n
    using assms(2-) by (simp add: make_DigestResponse_def)
  show ?thesis
  proof (cases "nc \<noteq> [] \<and> list_all is_hex nc")
    case True
    then have "int16 nc = Inr (hex_number nc)" by (simp add: int16_hex)
    with True show ?thesis
      unfolding parse_digest_response_def assms(1) Let_def
      by (simp add: req getitem_def assms(10) filter_non_hex mk del: set_simps list.set)
  next
    case False
    then show ?thesis
      unfolding parse_digest_response_def assms(1) Let_def
      by (simp add: req getitem_def assms(10) filter_non_hex del: set_simps list.set) blast
  qed
qed

lemma parse_digest_response_total:
  "\<exists>r. parse_digest_response parse_parts H s = Inr r"
proof (cases "parse_parts s [''algorithm'' \<mapsto> ''MD5'']")
  case None
  then show ?thesis by (simp add: parse_digest_response_None)
next
  case (Some p)
  show ?thesis
  proof (cases "list_all (\<lambda>k. p k \<noteq> None) REQUIRED_DIGEST_RESPONSE_PARTS")
    case True
    then obtain u r no ur re a opq q nc cn where
      "p ''username'' = Some u" "p ''realm'' = Some r" "p ''nonce'' = Some no"
      "p ''uri'' = Some ur" "p ''response'' = Some re" "p ''algorithm'' = Some a"
      "p ''opaque'' = Some opq" "p ''qop'' = Some q" "p ''nc'' = Some nc"
      "p ''cnonce'' = Some cn"
      by (auto simp: REQUIRED_DIGEST_RESPONSE_PARTS_def)
    from parse_digest_response_present [where parse_parts = parse_parts, OF Some this]
    show ?thesis by blast
  next
    case False
    then obtain k where "k \<in> set REQUIRED_DIGEST_RESPONSE_PARTS" "p k = None"
      by (auto simp: list_all_iff)
    from parse_digest_response_missing [where parse_parts = parse_parts, OF Some this]
    show ?thesis by blast
  qed
qed

subsection \<open>Misuse of \<^verbatim>\<open>calculate_request_digest\<close>\<close>

lemma get_hash_func_total:
  assumes "sha512_256 H \<noteq> None \<or> a \<noteq> ''SHA-512-256''"
  shows "\<exists>h. get_hash_func H a = (\<lambda>d. Inr (h d))"
  using assms by (auto simp: get_hash_func_def)

lemma request_digest_of_total:
  assumes "sha512_256 H \<noteq> None \<or> or_MD5 a \<noteq> ''SHA-512-256''"
  shows "\<exists>v. request_digest_of H method pd uri nonce k cn a = Inr v"
proof -
  from get_hash_func_total [OF assms] obtain h
    where "get_hash_func H (or_MD5 a) = (\<lambda>d. Inr (h d))" by blast
  then show ?thesis
    by (simp add: request_digest_of_def Let_def)
qed

text \<open>
  Claim C6, as amended. \<^verbatim>\<open>calculate_request_digest\<close> raises when it is called with a
  \<^verbatim>\<open>digest_response\<close> and one of uri, nonce, client nonce, algorithm that is not empty
  or a nonce count, and when it is called without a \<^verbatim>\<open>digest_response\<close> unless uri, nonce
  and client nonce are not empty and the nonce count is given. Otherwise it does not
  raise, as long as the host has the hash of the selected algorithm. The call with a
  \<^verbatim>\<open>digest_response\<close> and a nonce count of 0 is left aside.
\<close>

theorem C6_misuse_raises:
  assumes "digest_response \<noteq> None \<longrightarrow> nonce_count \<noteq> Some 0"
    and "sha512_256 H \<noteq> None
         \<or> selected_algorithm digest_response algorithm \<noteq> ''SHA-512-256''"
  shows "(\<exists>e. calculate_request_digest H method partial_digest digest_response
                  uri nonce nonce_count client_nonce algorithm = Inl e)
    \<longleftrightarrow> (digest_response \<noteq> None
           \<and> (truthy uri \<or> truthy nonce \<or> nonce_count \<noteq> None \<or> truthy client_nonce
                \<or> truthy algorithm))
        \<or> (digest_response = None
           \<and> \<not> (truthy uri \<and> truthy nonce \<and> nonce_count \<noteq> None \<and> truthy client_nonce))"
proof (cases digest_response)
  case None
  show ?thesis
  proof (cases "truthy uri \<and> truthy nonce \<and> nonce_count \<noteq> None \<and> truthy client_nonce")
    case True
    then obtain u n k cn where vals: "uri = Some u" "nonce = Some n" "nonce_count = Some k"
        "client_nonce = Some cn"
      by (auto simp: truthy_def split: option.splits)
    from assms(2) None have "sha512_256 H \<noteq> None \<or> or_MD5 algorithm \<noteq> ''SHA-512-256''"
      by (simp add: selected_algorithm_def)
    from request_digest_of_total [OF this] obtain v
      where "request_digest_of H method partial_digest u n k cn algorithm = Inr v" by blast
    with True None vals show ?thesis
      by (simp add: calculate_request_digest_def)
  next
    case False
    with None show ?thesis
      by (simp add: calculate_request_digest_def)
  qed
next
  case (Some d)
  with assms(1) have nc: "truthy_int nonce_count \<longleftrightarrow> nonce_count \<noteq> None"
    by (cases nonce_count) (simp_all add: truthy_int_def)
  show ?thesis
  proof (cases "truthy uri \<or> truthy nonce \<or> nonce_count \<noteq> None \<or> truthy client_nonce
                \<or> truthy algorithm")
    case True
    with Some nc show ?thesis
      by (simp add: calculate_request_digest_def)
  next
    case False
    from assms(2) Some
    have "sha512_256 H \<noteq> None \<or> or_MD5 (Some (r_algorithm d)) \<noteq> ''SHA-512-256''"
      by (simp add: selected_algorithm_def)
    from request_digest_of_total [OF this] obtain v
      where "request_digest_of H method partial_digest (r_uri d) (r_nonce d) (r_nc d)
               (r_cnonce d) (Some (r_algorithm d)) = Inr v" by blast
    with False Some nc show ?thesis
      by (simp add: calculate_request_digest_def)
  qed
qed

theorem C6_misuse_raises_witness:
  "(\<exists>e. calculate_request_digest host ''GET'' ''0123abcd'' (Some credential)
           (Some ''/dir/index.html'') None None None None = Inl e)
   \<and> (\<exists>e. calculate_request_digest host ''GET'' ''0123abcd'' None
           (Some ''/dir/index.html'') (Some ''dcd98b'') None (Some ''0a4f113b'') None = Inl e)
   \<and> \<not> (\<exists>e. calculate_request_digest host ''GET'' ''0123abcd'' None
           (Some ''/dir/index.html'') (Some ''dcd98b'') (Some 0) (Some ''0a4f113b'') None
             = Inl e)
   \<and> \<not> (\<exists>e. calculate_request_digest host ''GET'' ''0123abcd'' (Some credential)
           None None None None None = Inl e)"
proof -
  have avail: "sha512_256 host \<noteq> None \<or> selected_algorithm dr alg \<noteq> ''SHA-512-256''"
    for dr alg
    by (simp add: host_def)
  have a: "Some credential \<noteq> None \<longrightarrow> (None :: int option) \<noteq> Some 0" by simp
  have b: "(None :: DigestResponse option) \<noteq> None \<longrightarrow> (None :: int option) \<noteq> Some 0" by simp
  have c: "(None :: DigestResponse option) \<noteq> None \<longrightarrow> Some (0 :: int) \<noteq> Some 0" by simp
  show ?thesis
    using C6_misuse_raises [OF a avail, of "''GET''" "''0123abcd''" "Some ''/dir/index.html''" None None None]
      C6_misuse_raises [OF b avail, of "''GET''" "''0123abcd''" "Some ''/dir/index.html''"
        "Some ''dcd98b''" "Some ''0a4f113b''" None]
      C6_misuse_raises [OF c avail, of "''GET''" "''0123abcd''" "Some ''/dir/index.html''"
        "Some ''dcd98b''" "Some ''0a4f113b''" None]
      C6_misuse_raises [OF a avail, of "''GET''" "''0123abcd''" None None None None]
    by (simp add: truthy_def)
qed

text \<open>
  The claim as stated fails: an empty uri passed with a \<^verbatim>\<open>digest_response\<close> raises
  nothing; an empty uri passed with the other three parameters raises; and a call that
  selects \<^verbatim>\<open>SHA-512-256\<close> on a host without it raises \<^verbatim>\<open>ValueError\<close>.
\<close>

theorem C6_counterexample:
  "calculate_request_digest host ''GET'' ''0123abcd'' (Some credential)
      (Some '''') None None None None = Inr ''3031''
   \<and> calculate_request_digest host ''GET'' ''0123abcd'' None
      (Some '''') (Some ''dcd98b'') (Some 1) (Some ''0a4f113b'') None
     = Inl (Exception ''Neither digest_response nor all individual parameters were sent.'')
   \<and> calculate_request_digest host_without_sha512_256 ''GET'' ''0123abcd'' None
      (Some ''/dir/index.html'') (Some ''dcd98b'') (Some 1) (Some ''0a4f113b'')
      (Some ''SHA-512-256'') = Inl ValueError"
  by (simp add: calculate_request_digest_def truthy_def truthy_int_def credential_def
        request_digest_of_def or_MD5_def get_hash_func_def host_def host_without_sha512_256_def
        hexdigest_def hex_digit_def Let_def)

subsection \<open>Parsing a challenge\<close>

lemma parse_digest_challenge_other_scheme:
  "\<not> is_digest_challenge h \<Longrightarrow> parse_digest_challenge parse_parts H h = Inr None"
  by (simp add: parse_digest_challenge_def)

lemma parse_digest_challenge_None:
  "parse_parts (drop 7 h) [''algorithm'' \<mapsto> ''MD5'', ''stale'' \<mapsto> ''false''] = None \<Longrightarrow>
   parse_digest_challenge parse_parts H h = Inr None"
  by (simp add: parse_digest_challenge_def check_required_parts_def)

lemma parse_digest_challenge_missing:
  assumes "parse_parts (drop 7 h) [''algorithm'' \<mapsto> ''MD5'', ''stale'' \<mapsto> ''false''] = Some p"
    and "k \<in> set REQUIRED_DIGEST_CHALLENGE_PARTS" "p k = None"
  shows "parse_digest_challenge parse_parts H h = Inr None"
proof -
  have "\<not> check_required_parts (Some p) REQUIRED_DIGEST_CHALLENGE_PARTS"
    using assms(2,3) by (auto simp: check_required_parts_iff list_all_iff)
  then show ?thesis
    by (simp add: parse_digest_challenge_def assms(1))
qed

lemma parse_digest_challenge_present:
  assumes "is_digest_challenge h"
    and "parse_parts (drop 7 h) [''algorithm'' \<mapsto> ''MD5'', ''stale'' \<mapsto> ''false''] = Some p"
    and "p ''realm'' = Some r" "p ''nonce'' = Some no" "p ''stale'' = Some st"
    and "p ''algorithm'' = Some a" "p ''opaque'' = Some opq" "p ''qop'' = Some q"
  shows "parse_digest_challenge parse_parts H h =
     Inr (if a \<in> set (AVAILABLE_HASH_FUNCS H) \<and> q = ''auth''
          then Some \<lparr>c_realm = r, c_nonce = no, c_stale = (lower st = ''true''),
                     c_algorithm = a, c_opaque = opq, c_qop = q\<rparr>
          else None)"
proof -
  have req: "check_required_parts (Some p) REQUIRED_DIGEST_CHALLENGE_PARTS"
    using assms(3-) by (simp add: check_required_parts_iff REQUIRED_DIGEST_CHALLENGE_PARTS_def)
  have mk: "make_DigestChallenge p b =
     Inr \<lparr>c_realm = r, c_nonce = no, c_stale = b, c_algorithm = a, c_opaque = opq,
          c_qop = q\<rparr>" for b
    using assms(3-) by (simp add: make_DigestChallenge_def)
  show ?thesis
    unfolding parse_digest_challenge_def assms(2) Let_def
    using assms(1) by (simp add: req getitem_def assms(5) mk)
qed

lemma parse_digest_challenge_total:
  "\<exists>r. parse_digest_challenge parse_parts H h = Inr r"
proof (cases "is_digest_challenge h")
  case False
  then show ?thesis by (simp add: parse_digest_challenge_other_scheme)
next
  case True
  show ?thesis
  proof (cases "parse_parts (drop 7 h) [''algorithm'' \<mapsto> ''MD5'', ''stale'' \<mapsto> ''false'']")
    case None
    then show ?thesis by (simp add: parse_digest_challenge_None)
  next
    case (Some p)
    show ?thesis
    proof (cases "list_all (\<lambda>k. p k \<noteq> None) REQUIRED_DIGEST_CHALLENGE_PARTS")
      case all: True
      then obtain r no st a opq q where
        "p ''realm'' = Some r" "p ''nonce'' = Some no" "p ''stale'' = Some st"
        "p ''algorithm'' = Some a" "p ''opaque'' = Some opq" "p ''qop'' = Some q"
        by (auto simp: REQUIRED_DIGEST_CHALLENGE_PARTS_def)
      from parse_digest_challenge_present [where parse_parts = parse_parts, OF True Some this]
      show ?thesis by blast
    next
      case False
      then obtain k where "k \<in> set REQUIRED_DIGEST_CHALLENGE_PARTS" "p k = None"
        by (auto simp: list_all_iff)
      from parse_digest_challenge_missing [where parse_parts = parse_parts, OF Some this]
    show ?thesis by blast
    qed
  qed
qed

lemma parse_digest_credentials_total:
  "\<exists>r. parse_digest_credentials parse_parts H h = Inr r"
  using parse_digest_response_total by (simp add: parse_digest_credentials_def)

subsection \<open>Malformed input\<close>

lemma list_ex_not: "list_ex (\<lambda>x. \<not> P x) xs \<longleftrightarrow> \<not> list_all P xs"
  by (auto simp: list_ex_iff list_all_iff)

lemma malformed_credential_iff:
  "parse_digest_response parse_parts H s = Inr None \<longleftrightarrow> malformed_credential parse_parts H s"
proof (cases "parse_parts s [''algorithm'' \<mapsto> ''MD5'']")
  case None
  then show ?thesis
    by (simp add: parse_digest_response_None malformed_credential_def)
next
  case (Some p)
  show ?thesis
  proof (cases "list_all (\<lambda>k. p k \<noteq> None) REQUIRED_DIGEST_RESPONSE_PARTS")
    case True
    then obtain u r no ur re a opq q nc cn where vals:
      "p ''username'' = Some u" "p ''realm'' = Some r" "p ''nonce'' = Some no"
      "p ''uri'' = Some ur" "p ''response'' = Some re" "p ''algorithm'' = Some a"
      "p ''opaque'' = Some opq" "p ''qop'' = Some q" "p ''nc'' = Some nc"
      "p ''cnonce'' = Some cn"
      by (auto simp: REQUIRED_DIGEST_RESPONSE_PARTS_def)
    from True have "\<not> list_ex (\<lambda>k. p k = None) REQUIRED_DIGEST_RESPONSE_PARTS"
      using list_ex_not [of "\<lambda>k. p k \<noteq> None"] by simp
    then have "malformed_credential parse_parts H s \<longleftrightarrow>
        \<not> (nc \<noteq> [] \<and> list_all is_hex nc \<and> a \<in> set (AVAILABLE_HASH_FUNCS H) \<and> q = ''auth'')"
      by (auto simp: malformed_credential_def Some vals list_ex_not)
    then show ?thesis
      unfolding parse_digest_response_present [where parse_parts = parse_parts, OF Some vals]
      by simp
  next
    case False
    then obtain k where k: "k \<in> set REQUIRED_DIGEST_RESPONSE_PARTS" "p k = None"
      by (auto simp: list_all_iff)
    then have "list_ex (\<lambda>k. p k = None) REQUIRED_DIGEST_RESPONSE_PARTS"
      by (auto simp: list_ex_iff)
    then have "malformed_credential parse_parts H s"
      by (simp add: malformed_credential_def Some)
    with parse_digest_response_missing [where parse_parts = parse_parts, OF Some k]
    show ?thesis by simp
  qed
qed

lemma malformed_challenge_iff:
  "parse_digest_challenge parse_parts H h = Inr None \<longleftrightarrow> malformed_challenge parse_parts H h"
proof (cases "is_digest_challenge h")
  case False
  then show ?thesis
    by (simp add: parse_digest_challenge_other_scheme malformed_challenge_def)
next
  case digest: True
  show ?thesis
  proof (cases "parse_parts (drop 7 h) [''algorithm'' \<mapsto> ''MD5'', ''stale'' \<mapsto> ''false'']")
    case None
    then show ?thesis
      by (simp add: parse_digest_challenge_None malformed_challenge_def)
  next
    case (Some p)
    show ?thesis
    proof (cases "list_all (\<lambda>k. p k \<noteq> None) REQUIRED_DIGEST_CHALLENGE_PARTS")
      case True
      then obtain r no st a opq q where vals:
        "p ''realm'' = Some r" "p ''nonce'' = Some no" "p ''stale'' = Some st"
        "p ''algorithm'' = Some a" "p ''opaque'' = Some opq" "p ''qop'' = Some q"
        by (auto simp: REQUIRED_DIGEST_CHALLENGE_PARTS_def)
      from True have "\<not> list_ex (\<lambda>k. p k = None) REQUIRED_DIGEST_CHALLENGE_PARTS"
        using list_ex_not [of "\<lambda>k. p k \<noteq> None"] by simp
      then have "malformed_challenge parse_parts H h \<longleftrightarrow>
          \<not> (a \<in> set (AVAILABLE_HASH_FUNCS H) \<and> q = ''auth'')"
        using digest by (auto simp: malformed_challenge_def Some vals)
      then show ?thesis
        unfolding parse_digest_challenge_present
          [where parse_parts = parse_parts, OF digest Some vals]
        by simp
    next
      case False
      then obtain k where k: "k \<in> set REQUIRED_DIGEST_CHALLENGE_PARTS" "p k = None"
        by (auto simp: list_all_iff)
      then have "list_ex (\<lambda>k. p k = None) REQUIRED_DIGEST_CHALLENGE_PARTS"
        by (auto simp: list_ex_iff)
      then have "malformed_challenge parse_parts H h"
        by (simp add: malformed_challenge_def Some)
      with parse_digest_challenge_missing [where parse_parts = parse_parts, OF Some k]
      show ?thesis by simp
    qed
  qed
qed

lemma build_authorization_request_unparsed:
  assumes "h \<noteq> []" "parse_digest_challenge parse_parts H h = Inr None"
  shows "\<exists>e. build_authorization_request parse_parts format_parts H rnd username method uri
           nonce_count (Some (Header h)) realm nonce opaque password request_digest
           client_nonce algorithm = Inl e"
  using assms
  by (simp add: build_authorization_request_def truthy_challenge_def Let_def)

subsection \<open>The codec on the example headers\<close>

lemmas codec_simps = spec_parse_parts_def parse_part_def trim_def is_lws_def is_token_def
  token_char_def dquote_def backslash_def Let_def

lemma parse_credential_header:
  "spec_parse_parts (credential_header ''MD5'' ''00000001'') [''algorithm'' \<mapsto> ''MD5'']
     = Some (credential_parts ''MD5'' ''00000001'')"
  "spec_parse_parts (credential_header ''MD5'' ''0000000g'') [''algorithm'' \<mapsto> ''MD5'']
     = Some (credential_parts ''MD5'' ''0000000g'')"
  "spec_parse_parts (credential_header ''MD5'' ''123456789'') [''algorithm'' \<mapsto> ''MD5'']
     = Some (credential_parts ''MD5'' ''123456789'')"
  "spec_parse_parts (credential_header ''SHA-1'' ''00000001'') [''algorithm'' \<mapsto> ''MD5'']
     = Some (credential_parts ''SHA-1'' ''00000001'')"
  by (simp_all add: credential_header_def credential_parts_def codec_simps)

lemma parse_challenge_header:
  "spec_parse_parts (drop 7 (challenge_header ''SHA-1''))
     [''algorithm'' \<mapsto> ''MD5'', ''stale'' \<mapsto> ''false''] = Some (challenge_parts ''SHA-1'')"
  by (simp_all add: challenge_header_def challenge_parts_def codec_simps)


lemma is_digest_challenge_header: "is_digest_challenge (challenge_header a)"
  by (simp add: is_digest_challenge_def challenge_header_def lower_def lower_char_def
        ascii_upper_def ascii_lower_def)

subsection \<open>Strict parsing, permissive computing\<close>

text \<open>
  Claim C3. A header whose algorithm parameter names an unsupported algorithm, such as
  \<^verbatim>\<open>SHA-1\<close>, makes \<^verbatim>\<open>parse_digest_challenge\<close> and \<^verbatim>\<open>parse_digest_response\<close> return
  \<^verbatim>\<open>None\<close>, for every parser of the parameter list. \<^verbatim>\<open>calculate_partial_digest\<close> with
  \<^verbatim>\<open>SHA-1\<close>, or any name that \<^verbatim>\<open>get_hash_func\<close> does not recognise, succeeds and returns
  what it returns for \<^verbatim>\<open>MD5\<close>.
\<close>

theorem C3_strict_parsing_permissive_computing:
  "(parse_parts (drop 7 h) [''algorithm'' \<mapsto> ''MD5'', ''stale'' \<mapsto> ''false''] = Some p
      \<and> p ''algorithm'' = Some a \<and> a \<notin> set (AVAILABLE_HASH_FUNCS H)
      \<longrightarrow> parse_digest_challenge parse_parts H h = Inr None)
   \<and> (parse_parts s [''algorithm'' \<mapsto> ''MD5''] = Some p' \<and> p' ''algorithm'' = Some a
      \<and> a \<notin> set (AVAILABLE_HASH_FUNCS H)
      \<longrightarrow> parse_digest_response parse_parts H s = Inr None)
   \<and> ''SHA-1'' \<notin> set (AVAILABLE_HASH_FUNCS H)
   \<and> (algorithm \<notin> {''SHA-256'', ''SHA-512'', ''SHA-512-256''}
      \<longrightarrow> calculate_partial_digest H username realm password algorithm
            = Inr (hexdigest (md5 H (username @ '':'' @ realm @ '':'' @ password)))
        \<and> calculate_partial_digest H username realm password algorithm
            = calculate_partial_digest H username realm password ''MD5'')
   \<and> calculate_partial_digest H username realm password ''SHA-1''
        = calculate_partial_digest H username realm password ''MD5''"
proof (intro conjI impI)
  assume "parse_parts (drop 7 h) [''algorithm'' \<mapsto> ''MD5'', ''stale'' \<mapsto> ''false''] = Some p
      \<and> p ''algorithm'' = Some a \<and> a \<notin> set (AVAILABLE_HASH_FUNCS H)"
  then have "malformed_challenge parse_parts H h"
    by (simp add: malformed_challenge_def)
  then show "parse_digest_challenge parse_parts H h = Inr None"
    by (simp only: malformed_challenge_iff)
next
  assume "parse_parts s [''algorithm'' \<mapsto> ''MD5''] = Some p' \<and> p' ''algorithm'' = Some a
      \<and> a \<notin> set (AVAILABLE_HASH_FUNCS H)"
  then have "malformed_credential parse_parts H s"
    by (simp add: malformed_credential_def)
  then show "parse_digest_response parse_parts H s = Inr None"
    by (simp only: malformed_credential_iff)
next
  show "''SHA-1'' \<notin> set (AVAILABLE_HASH_FUNCS H)"
    by (simp add: AVAILABLE_HASH_FUNCS_def)
next
  assume "algorithm \<notin> {''SHA-256'', ''SHA-512'', ''SHA-512-256''}"
  then show "calculate_partial_digest H username realm password algorithm
            = Inr (hexdigest (md5 H (username @ '':'' @ realm @ '':'' @ password)))"
    by (simp add: calculate_partial_digest_def get_hash_func_def)
next
  assume "algorithm \<notin> {''SHA-256'', ''SHA-512'', ''SHA-512-256''}"
  then show "calculate_partial_digest H username realm password algorithm
            = calculate_partial_digest H username realm password ''MD5''"
    by (simp add: calculate_partial_digest_def get_hash_func_def)
next
  show "calculate_partial_digest H username realm password ''SHA-1''
        = calculate_partial_digest H username realm password ''MD5''"
    by (simp add: calculate_partial_digest_def get_hash_func_def)
qed

theorem C3_strict_parsing_permissive_computing_witness:
  "parse_digest_challenge spec_parse_parts host (challenge_header ''SHA-1'') = Inr None
   \<and> parse_digest_response spec_parse_parts host (credential_header ''SHA-1'' ''00000001'')
       = Inr None
   \<and> calculate_partial_digest host ''Mufasa'' ''testrealm@host.com'' ''Circle Of Life'' ''SHA-1''
       = Inr (hexdigest (md5 host (''Mufasa'' @ '':'' @ ''testrealm@host.com'' @ '':'' @
                ''Circle Of Life'')))"
proof -
  have a: "challenge_parts ''SHA-1'' ''algorithm'' = Some ''SHA-1''"
    "credential_parts ''SHA-1'' ''00000001'' ''algorithm'' = Some ''SHA-1''"
    by (simp_all add: challenge_parts_def credential_parts_def)
  have b: "''SHA-1'' \<notin> set (AVAILABLE_HASH_FUNCS host)"
    by (simp add: AVAILABLE_HASH_FUNCS_def)
  have c: "''SHA-1'' \<notin> {''SHA-256'', ''SHA-512'', ''SHA-512-256''}"
    by simp
  note inst = C3_strict_parsing_permissive_computing
    [where parse_parts = spec_parse_parts and H = host and h = "challenge_header ''SHA-1''"
       and p = "challenge_parts ''SHA-1''" and a = "''SHA-1''"
       and s = "credential_header ''SHA-1'' ''00000001''"
       and p' = "credential_parts ''SHA-1'' ''00000001''" and algorithm = "''SHA-1''"
       and username = "''Mufasa''" and realm = "''testrealm@host.com''"
       and password = "''Circle Of Life''"]
  from inst have 1: "parse_digest_challenge spec_parse_parts host (challenge_header ''SHA-1'') = Inr None"
    using parse_challenge_header a(1) b by (simp only: simp_thms)
  from inst have 2: "parse_digest_response spec_parse_parts host
      (credential_header ''SHA-1'' ''00000001'') = Inr None"
    using parse_credential_header(4) a(2) b by (simp only: simp_thms)
  from inst have 3: "calculate_partial_digest host ''Mufasa'' ''testrealm@host.com''
      ''Circle Of Life'' ''SHA-1''
       = Inr (hexdigest (md5 host (''Mufasa'' @ '':'' @ ''testrealm@host.com'' @ '':'' @
                ''Circle Of Life'')))"
    using c by (simp only: simp_thms)
  from 1 2 3 show ?thesis by (intro conjI)
qed

subsection \<open>The nonce count of a credential\<close>

lemma hex_number_examples:
  "hex_number ''00000001'' = 1" "hex_number ''000000ff'' = 255" "hex_number ''FF'' = 255"
  "hex_number ''123456789'' = 4886718345"
  by (simp_all add: hex_number_def digit_value_def)

lemma is_hex_examples:
  "list_all is_hex ''00000001''" "list_all is_hex ''123456789''"
  "\<not> list_all is_hex ''0000000g''"
  by (simp_all add: is_hex_def)

lemma credential_parts_fields:
  "credential_parts a n ''username'' = Some ''Mufasa''"
  "credential_parts a n ''realm'' = Some ''testrealm@host.com''"
  "credential_parts a n ''nonce'' = Some ''dcd98b''"
  "credential_parts a n ''uri'' = Some ''/dir/index.html''"
  "credential_parts a n ''response'' = Some ''6629fae4''"
  "credential_parts a n ''algorithm'' = Some a"
  "credential_parts a n ''opaque'' = Some ''5ccc069c''"
  "credential_parts a n ''qop'' = Some ''auth''"
  "credential_parts a n ''nc'' = Some n"
  "credential_parts a n ''cnonce'' = Some ''0a4f113b''"
  by (simp_all add: credential_parts_def)

lemma MD5_available: "''MD5'' \<in> set (AVAILABLE_HASH_FUNCS H)"
  by (simp add: AVAILABLE_HASH_FUNCS_def)

text \<open>
  Claim C8, as amended. \<^verbatim>\<open>parse_digest_response\<close> accepts the \<open>nc\<close> field of a credential
  exactly when it is one or more hexadecimal digits, with no upper bound on their
  number: a credential whose \<open>nc\<close> is empty or holds another character yields \<^verbatim>\<open>None\<close>,
  and a credential that is valid otherwise yields a record whose \<open>nc\<close> field is the
  number these digits denote, which is not negative.
\<close>

theorem C8_nc_hexadecimal:
  assumes "parse_parts s [''algorithm'' \<mapsto> ''MD5''] = Some p" and "p ''nc'' = Some nc"
  shows "(nc = [] \<or> \<not> list_all is_hex nc
            \<longrightarrow> parse_digest_response parse_parts H s = Inr None)
    \<and> (nc \<noteq> [] \<and> list_all is_hex nc
         \<and> p ''username'' = Some u \<and> p ''realm'' = Some r \<and> p ''nonce'' = Some no
         \<and> p ''uri'' = Some ur \<and> p ''response'' = Some re \<and> p ''algorithm'' = Some a
         \<and> p ''opaque'' = Some opq \<and> p ''qop'' = Some ''auth'' \<and> p ''cnonce'' = Some cn
         \<and> a \<in> set (AVAILABLE_HASH_FUNCS H)
            \<longrightarrow> parse_digest_response parse_parts H s
                  = Inr (Some \<lparr>r_username = u, r_realm = r, r_nonce = no, r_uri = ur,
                          r_response = re, r_algorithm = a, r_opaque = opq, r_qop = ''auth'',
                          r_nc = hex_number nc, r_cnonce = cn\<rparr>)
                \<and> 0 \<le> hex_number nc)"
proof (intro conjI impI)
  assume "nc = [] \<or> \<not> list_all is_hex nc"
  then have "malformed_credential parse_parts H s"
    using assms by (auto simp: malformed_credential_def list_ex_not)
  then show "parse_digest_response parse_parts H s = Inr None"
    by (simp only: malformed_credential_iff)
next
  assume valid: "nc \<noteq> [] \<and> list_all is_hex nc
         \<and> p ''username'' = Some u \<and> p ''realm'' = Some r \<and> p ''nonce'' = Some no
         \<and> p ''uri'' = Some ur \<and> p ''response'' = Some re \<and> p ''algorithm'' = Some a
         \<and> p ''opaque'' = Some opq \<and> p ''qop'' = Some ''auth'' \<and> p ''cnonce'' = Some cn
         \<and> a \<in> set (AVAILABLE_HASH_FUNCS H)"
  then have "parse_digest_response parse_parts H s =
     Inr (if nc \<noteq> [] \<and> list_all is_hex nc
             \<and> a \<in> set (AVAILABLE_HASH_FUNCS H) \<and> ''auth'' = ''auth''
          then Some \<lparr>r_username = u, r_realm = r, r_nonce = no, r_uri = ur, r_response = re,
                     r_algorithm = a, r_opaque = opq, r_qop = ''auth'', r_nc = hex_number nc,
                     r_cnonce = cn\<rparr>
          else None)"
    using assms
    by (intro parse_digest_response_present [where parse_parts = parse_parts and p = p]) simp_all
  with valid show "parse_digest_response parse_parts H s
                  = Inr (Some \<lparr>r_username = u, r_realm = r, r_nonce = no, r_uri = ur,
                          r_response = re, r_algorithm = a, r_opaque = opq, r_qop = ''auth'',
                          r_nc = hex_number nc, r_cnonce = cn\<rparr>)"
    by simp
  from valid show "0 \<le> hex_number nc"
    by (simp add: int16_hex(2))
qed

theorem C8_nc_hexadecimal_witness:
  "parse_digest_response spec_parse_parts host (credential_header ''MD5'' ''00000001'')
     = Inr (Some \<lparr>r_username = ''Mufasa'', r_realm = ''testrealm@host.com'',
              r_nonce = ''dcd98b'', r_uri = ''/dir/index.html'', r_response = ''6629fae4'',
              r_algorithm = ''MD5'', r_opaque = ''5ccc069c'', r_qop = ''auth'',
              r_nc = 1, r_cnonce = ''0a4f113b''\<rparr>)
   \<and> parse_digest_response spec_parse_parts host (credential_header ''MD5'' ''0000000g'')
     = Inr None"
proof -
  note good = C8_nc_hexadecimal
    [where parse_parts = spec_parse_parts and H = host and nc = "''00000001''"
       and a = "''MD5''", OF parse_credential_header(1) credential_parts_fields(9)]
  note bad = C8_nc_hexadecimal
    [where parse_parts = spec_parse_parts and H = host and nc = "''0000000g''",
     OF parse_credential_header(2) credential_parts_fields(9)]
  have 1: "parse_digest_response spec_parse_parts host (credential_header ''MD5'' ''00000001'')
     = Inr (Some \<lparr>r_username = ''Mufasa'', r_realm = ''testrealm@host.com'',
              r_nonce = ''dcd98b'', r_uri = ''/dir/index.html'', r_response = ''6629fae4'',
              r_algorithm = ''MD5'', r_opaque = ''5ccc069c'', r_qop = ''auth'',
              r_nc = 1, r_cnonce = ''0a4f113b''\<rparr>)"
    using good [of "''Mufasa''" "''testrealm@host.com''" "''dcd98b''" "''/dir/index.html''"
        "''6629fae4''" "''5ccc069c''" "''0a4f113b''"]
      is_hex_examples(1) MD5_available [of host]
    by (simp add: credential_parts_fields hex_number_examples(1))
  have 2: "parse_digest_response spec_parse_parts host (credential_header ''MD5'' ''0000000g'')
     = Inr None"
    using bad is_hex_examples(3) by blast
  from 1 2 show ?thesis by (intro conjI)
qed

text \<open>
  The claim as stated fails: an \<open>nc\<close> of 9 hexadecimal digits is accepted.
\<close>

theorem C8_counterexample:
  "parse_digest_response spec_parse_parts host (credential_header ''MD5'' ''123456789'')
     = Inr (Some \<lparr>r_username = ''Mufasa'', r_realm = ''testrealm@host.com'',
              r_nonce = ''dcd98b'', r_uri = ''/dir/index.html'', r_response = ''6629fae4'',
              r_algorithm = ''MD5'', r_opaque = ''5ccc069c'', r_qop = ''auth'',
              r_nc = 4886718345, r_cnonce = ''0a4f113b''\<rparr>)
   \<and> length ''123456789'' = 9"
  using parse_digest_response_present
    [where parse_parts = spec_parse_parts and H = host,
     OF parse_credential_header(3) credential_parts_fields]
    is_hex_examples(2) MD5_available [of host]
  by (simp add: hex_number_examples(4))

subsection \<open>Malformed input is an absence result\<close>

text \<open>
  Claim C5, as amended. For every header string and every parser of the parameter list,
  \<^verbatim>\<open>parse_digest_response\<close>, \<^verbatim>\<open>parse_digest_credentials\<close> and \<^verbatim>\<open>parse_digest_challenge\<close>
  never raise, and they return \<^verbatim>\<open>None\<close> exactly on malformed input: the grammar does not
  parse, a required field is missing, \<open>nc\<close> is not hexadecimal, \<open>qop\<close> is not \<open>auth\<close>, the
  algorithm is not supported, or (for the latter two) the scheme is not \<^verbatim>\<open>Digest\<close>.
  \<^verbatim>\<open>build_authorization_request\<close> raises when it is given a challenge header string,
  not empty, that is malformed.
\<close>

theorem C5_malformed_input_is_None:
  "(\<exists>r. parse_digest_response parse_parts H s = Inr r)
   \<and> (parse_digest_response parse_parts H s = Inr None
        \<longleftrightarrow> malformed_credential parse_parts H s)
   \<and> (\<exists>r. parse_digest_credentials parse_parts H h = Inr r)
   \<and> (parse_digest_credentials parse_parts H h = Inr None
        \<longleftrightarrow> \<not> is_digest_credential h \<or> malformed_credential parse_parts H (drop 7 h))
   \<and> (\<exists>r. parse_digest_challenge parse_parts H h = Inr r)
   \<and> (parse_digest_challenge parse_parts H h = Inr None
        \<longleftrightarrow> malformed_challenge parse_parts H h)
   \<and> (h \<noteq> [] \<and> malformed_challenge parse_parts H h
        \<longrightarrow> (\<exists>e. build_authorization_request parse_parts format_parts H rnd username http_method
                    uri nonce_count (Some (Header h)) realm nonce opaque password
                    request_digest client_nonce algorithm = Inl e))"
proof (intro conjI impI)
  show "\<exists>r. parse_digest_response parse_parts H s = Inr r"
    by (rule parse_digest_response_total)
  show "parse_digest_response parse_parts H s = Inr None
        \<longleftrightarrow> malformed_credential parse_parts H s"
    by (rule malformed_credential_iff)
  show "\<exists>r. parse_digest_credentials parse_parts H h = Inr r"
    by (rule parse_digest_credentials_total)
  show "parse_digest_credentials parse_parts H h = Inr None
        \<longleftrightarrow> \<not> is_digest_credential h \<or> malformed_credential parse_parts H (drop 7 h)"
    by (simp add: parse_digest_credentials_def malformed_credential_iff)
  show "\<exists>r. parse_digest_challenge parse_parts H h = Inr r"
    by (rule parse_digest_challenge_total)
  show "parse_digest_challenge parse_parts H h = Inr None
        \<longleftrightarrow> malformed_challenge parse_parts H h"
    by (rule malformed_challenge_iff)
next
  assume "h \<noteq> [] \<and> malformed_challenge parse_parts H h"
  then have "h \<noteq> []" "parse_digest_challenge parse_parts H h = Inr None"
    by (simp_all add: malformed_challenge_iff)
  then show "\<exists>e. build_authorization_request parse_parts format_parts H rnd username http_method
                    uri nonce_count (Some (Header h)) realm nonce opaque password
                    request_digest client_nonce algorithm = Inl e"
    by (rule build_authorization_request_unparsed)
qed

lemma Basic_malformed: "malformed_challenge parse_parts H ''Basic QWxhZGRpbjpvcGVu''"
  by (simp add: malformed_challenge_def is_digest_challenge_def lower_def lower_char_def
        ascii_upper_def ascii_lower_def)

theorem C5_malformed_input_is_None_witness:
  "parse_digest_challenge spec_parse_parts host ''Basic QWxhZGRpbjpvcGVu'' = Inr None
   \<and> (\<exists>e. build_authorization_request spec_parse_parts spec_format_parts host (\<lambda>i. i)
          ''Mufasa'' ''GET'' ''/dir/index.html'' 1 (Some (Header ''Basic QWxhZGRpbjpvcGVu''))
          None None None (Some ''Circle Of Life'') None None None = Inl e)"
proof -
  note inst = C5_malformed_input_is_None
    [where parse_parts = spec_parse_parts and H = host and h = "''Basic QWxhZGRpbjpvcGVu''"
       and format_parts = spec_format_parts and rnd = "\<lambda>i. i" and username = "''Mufasa''"
       and http_method = "''GET''" and uri = "''/dir/index.html''" and nonce_count = 1
       and realm = None and nonce = None and opaque = None
       and password = "Some ''Circle Of Life''" and request_digest = None
       and client_nonce = None and algorithm = None]
  have ne: "''Basic QWxhZGRpbjpvcGVu'' \<noteq> []" by simp
  from inst have 1: "parse_digest_challenge spec_parse_parts host ''Basic QWxhZGRpbjpvcGVu''
      = Inr None"
    using Basic_malformed [of spec_parse_parts host] by (simp only: simp_thms)
  from inst have 2: "\<exists>e. build_authorization_request spec_parse_parts spec_format_parts host
          (\<lambda>i. i) ''Mufasa'' ''GET'' ''/dir/index.html'' 1
          (Some (Header ''Basic QWxhZGRpbjpvcGVu''))
          None None None (Some ''Circle Of Life'') None None None = Inl e"
    using Basic_malformed [of spec_parse_parts host] ne by (simp only: simp_thms)
  from 1 2 show ?thesis by (intro conjI)
qed

text \<open>
  The claim as stated fails: \<^verbatim>\<open>build_authorization_request\<close> raises on a header that
  cannot be parsed.
\<close>

theorem C5_counterexample:
  "build_authorization_request spec_parse_parts spec_format_parts host (\<lambda>i. i)
      ''Mufasa'' ''GET'' ''/dir/index.html'' 1 (Some (Header ''Basic QWxhZGRpbjpvcGVu''))
      None None None (Some ''Circle Of Life'') None None None
   = Inl (Exception
       ''The provided digest challenge header could not be parsed: Basic QWxhZGRpbjpvcGVu'')"
  by (simp add: build_authorization_request_def truthy_challenge_def truthy_def Let_def
        parse_digest_challenge_def is_digest_challenge_def lower_def lower_char_def
        ascii_upper_def ascii_lower_def)

subsection \<open>The codec reads back what it writes\<close>



























end
